theory Spec2Isabelle
  imports Main "HOL-Library.Word" "HOL-Library.Sublist"
begin

unbundle bit_operations_syntax

section \<open>Go values used by the provider\<close>

text \<open>
  The provider is Go code. A Go \<open>int\<close> is a 64-bit two's complement integer, a
  \<open>byte\<close> an 8-bit unsigned one, \<open>uint64\<close> a 64-bit unsigned one; they are words here, so
  that \<open>+\<close> wraps and conversions truncate as in Go. A returned \<open>error\<close> and a runtime
  panic are both values of the type \<open>failure\<close>.
\<close>

type_synonym go_int = "64 word"
type_synonym byte = "8 word"
type_synonym uint64 = "64 word"

datatype failure = Err string | Panic string

text \<open>\<open>xs[i]\<close> on a slice: a runtime panic outside \<open>0 .. len(xs) - 1\<close>.\<close>

definition index :: "'a list \<Rightarrow> int \<Rightarrow> failure + 'a" where
  "index xs i =
     (if 0 \<le> i \<and> i < int (length xs) then Inr (xs ! nat i)
      else Inl (Panic ''index out of range''))"

text \<open>Sequencing: the first failure ends the computation, as a panic or an early return does.\<close>

definition andThen :: "failure + 'a \<Rightarrow> ('a \<Rightarrow> failure + 'b) \<Rightarrow> failure + 'b" where
  "andThen m f = (case m of Inl e \<Rightarrow> Inl e | Inr x \<Rightarrow> f x)"

subsection \<open>The verb \<open>%d\<close> of \<open>fmt.Sprintf\<close>\<close>

fun digits :: "nat \<Rightarrow> string" where
  "digits n =
     (if n < 10 then [''0123456789'' ! n]
      else digits (n div 10) @ [''0123456789'' ! (n mod 10)])"

declare digits.simps [simp del]

definition fmt_d :: "int \<Rightarrow> string" where
  "fmt_d i = (if i < 0 then CHR ''-'' # digits (nat (- i)) else digits (nat i))"

subsection \<open>Addresses: \<open>net.IP\<close>, \<open>net.IPMask\<close>, \<open>gridtypes.IPNet\<close>\<close>

record IPNet =
  IP :: "byte list"
  Mask :: "byte list"

text \<open>\<open>net.IPv4(a, b, c, d)\<close> is the 16-byte form of the address.\<close>

definition v4InV6Prefix :: "byte list" where
  "v4InV6Prefix = [0, 0, 0, 0, 0, 0, 0, 0, 0, 0, 0xff, 0xff]"

definition IPv4 :: "byte \<Rightarrow> byte \<Rightarrow> byte \<Rightarrow> byte \<Rightarrow> byte list" where
  "IPv4 a b c d = v4InV6Prefix @ [a, b, c, d]"

text \<open>
  \<open>net.CIDRMask(ones, bits)\<close>: \<open>ones\<close> leading one bits in a mask of \<open>bits\<close> bits; the nil
  mask (the empty list) when \<open>bits\<close> is neither 32 nor 128 or \<open>ones\<close> is out of range.
\<close>

fun maskBytes :: "nat \<Rightarrow> nat \<Rightarrow> byte list" where
  "maskBytes 0 n = []"
| "maskBytes (Suc l) n =
     (if 8 \<le> n then 0xff # maskBytes l (n - 8)
      else (NOT (drop_bit n (0xff :: byte))) # maskBytes l 0)"

definition CIDRMask :: "int \<Rightarrow> int \<Rightarrow> byte list" where
  "CIDRMask ones bits =
     (if bits \<noteq> 32 \<and> bits \<noteq> 128 then []
      else if ones < 0 \<or> bits < ones then []
      else maskBytes (nat (bits div 8)) (nat ones))"

definition ipNet :: "byte \<Rightarrow> byte \<Rightarrow> byte \<Rightarrow> byte \<Rightarrow> byte \<Rightarrow> IPNet" where
  "ipNet a b c d msk = \<lparr>IP = IPv4 a b c d, Mask = CIDRMask (uint msk) 32\<rparr>"

subsection \<open>Workloads and deployments (\<open>gridtypes\<close>, \<open>zos\<close>)\<close>

text \<open>
  The payload of a workload is kept as the value handed to \<open>gridtypes.MustMarshal\<close>, not
  as its JSON text. A WireGuard key (\<open>wgtypes.Key\<close>) is its 32 bytes.
\<close>

datatype workload_type = ZMountType | ZDBType | ZMachineType | NetworkType

record MachineInterface =
  if_Network :: string
  if_IP :: "byte list"

record MachineMount =
  mnt_Name :: string
  mnt_Mountpoint :: string

record ZMachine =
  FList :: string
  Interfaces :: "MachineInterface list"
  Planetary :: bool
  CPU :: byte
  Memory :: uint64
  Entrypoint :: string
  Mounts :: "MachineMount list"
  Env :: "(string \<times> string) list"

record Peer =
  peer_Subnet :: IPNet
  peer_WGPublicKey :: string
  peer_Endpoint :: string
  peer_AllowedIPs :: "IPNet list"

record Network =
  net_NetworkIPRange :: IPNet
  net_Subnet :: IPNet
  WGPrivateKey :: string
  WGListenPort :: "16 word"
  Peers :: "Peer list"

datatype payload =
    ZMountData uint64
  | ZDBData uint64 string string
  | ZMachineData ZMachine
  | NetworkData Network

record Result =
  State :: string
  Error :: string

record Workload =
  wl_Version :: go_int
  wl_Name :: string
  wl_Type :: workload_type
  wl_Description :: string
  wl_Data :: payload
  wl_Result :: Result

record SignatureRequest =
  sr_TwinID :: "32 word"
  sr_Weight :: go_int

record Deployment =
  dl_Version :: go_int
  dl_TwinID :: "32 word"
  dl_ContractID :: uint64
  dl_Workloads :: "Workload list"
  dl_WeightRequired :: go_int
  dl_Requests :: "SignatureRequest list"
  dl_Signatures :: "(32 word \<times> string) list"

definition noResult :: Result where
  "noResult = \<lparr>State = [], Error = []\<rparr>"

text \<open>\<open>gridtypes.StateOk\<close>, and the units \<open>gridtypes.Megabyte\<close> and \<open>gridtypes.Gigabyte\<close>.\<close>

definition StateOk :: string where
  "StateOk = ''ok''"

definition Megabyte :: uint64 where
  "Megabyte = 1024 * 1024"

definition Gigabyte :: uint64 where
  "Gigabyte = 1024 * Megabyte"

text \<open>The constant \<open>Version\<close> of the package.\<close>

definition Version :: go_int where
  "Version = 0"

section \<open>resource\_network.go: lookups\<close>

definition nodeIps :: "go_int \<rightharpoonup> string" where
  "nodeIps =
     [1 \<mapsto> ''2a02:1802:5e:16:ec4:7aff:fe30:65b4'',
      2 \<mapsto> ''2a02:1802:5e:16:225:90ff:fef5:582e'',
      3 \<mapsto> ''2a02:1802:5e:16:225:90ff:fef5:6d02'',
      4 \<mapsto> ''2a02:1802:5e:16:225:90ff:fe87:d7b4'']"

text \<open>Reading a Go map at a missing key gives the zero value, here the empty string.\<close>

definition getNodeEndpoint :: "go_int \<Rightarrow> go_int \<Rightarrow> string" where
  "getNodeEndpoint nodeId wgPort =
     ''['' @ (case nodeIps nodeId of None \<Rightarrow> [] | Some a \<Rightarrow> a) @ '']:'' @ fmt_d (sint wgPort)"

fun isInInt :: "go_int list \<Rightarrow> go_int \<Rightarrow> bool" where
  "isInInt [] i = False"
| "isInInt (x # l) i = (if i = x then True else isInInt l i)"

text \<open>
  Modelled from the spec: \<open>isInStr\<close> is called by \<open>getFreeIP\<close> and is not among the
  sources; it tells whether an address is "present in the used set", and is written like
  its siblings \<open>isIn\<close>, \<open>isInByte\<close> and \<open>isInInt\<close>.
\<close>

fun isInStr :: "string list \<Rightarrow> string \<Rightarrow> bool" where
  "isInStr [] i = False"
| "isInStr (x # l) i = (if i = x then True else isInStr l i)"

section \<open>resource\_deployment.go: address allocation\<close>

text \<open>
  One round of the loop of \<open>getFreeIP\<close>: the candidate \<open>ipNet(..., byte(i), 32)\<close> and its
  text. The subnet's bytes are read at \<open>l - 4\<close>, \<open>l - 3\<close>, \<open>l - 2\<close>, and the candidate's at
  \<open>l - 4 .. l - 1\<close>, with \<open>l\<close> the length of the subnet's address.
\<close>

definition dotted :: "byte \<Rightarrow> byte \<Rightarrow> byte \<Rightarrow> byte \<Rightarrow> string" where
  "dotted p q r s =
     fmt_d (uint p) @ ''.'' @ fmt_d (uint q) @ ''.'' @ fmt_d (uint r) @ ''.'' @ fmt_d (uint s)"

definition candidate :: "IPNet \<Rightarrow> int \<Rightarrow> failure + string" where
  "candidate ipRange i =
     (let l = int (length (IP ipRange)) in
      andThen (index (IP ipRange) (l - 4)) (\<lambda>a.
      andThen (index (IP ipRange) (l - 3)) (\<lambda>b.
      andThen (index (IP ipRange) (l - 2)) (\<lambda>c.
      let ip = ipNet a b c (word_of_int i) 32 in
      andThen (index (IP ip) (l - 4)) (\<lambda>p.
      andThen (index (IP ip) (l - 3)) (\<lambda>q.
      andThen (index (IP ip) (l - 2)) (\<lambda>r.
      andThen (index (IP ip) (l - 1)) (\<lambda>s.
      Inr (dotted p q r s)))))))))"

function getFreeIP_loop :: "IPNet \<Rightarrow> string list \<Rightarrow> int \<Rightarrow> failure + string" where
  "getFreeIP_loop ipRange usedIPs i =
     (if i < 255 then
        (case candidate ipRange i of
           Inl e \<Rightarrow> Inl e
         | Inr ipStr \<Rightarrow>
             if \<not> isInStr usedIPs ipStr then Inr ipStr
             else getFreeIP_loop ipRange usedIPs (i + 1))
      else Inl (Err ''all ips are used''))"
  by pat_completeness auto
termination
  by (relation "measure (\<lambda>(ipRange, usedIPs, i). nat (255 - i))") auto

declare getFreeIP_loop.simps [simp del]

definition getFreeIP :: "IPNet \<Rightarrow> string list \<Rightarrow> failure + string" where
  "getFreeIP ipRange usedIPs = getFreeIP_loop ipRange usedIPs 2"

text \<open>
  The address of host-id \<open>h\<close> in a subnet whose address has the 16-byte form (what
  \<open>gridtypes.ParseIPNet\<close> and \<open>ipNet\<close> give): the text \<open>a.b.c.h\<close>.
\<close>

definition hostAddr :: "IPNet \<Rightarrow> int \<Rightarrow> string" where
  "hostAddr ipRange h =
     dotted (IP ipRange ! 12) (IP ipRange ! 13) (IP ipRange ! 14) (word_of_int h)"

section \<open>resource\_deployment.go: declared and recorded resources\<close>

text \<open>
  A resource is a \<open>map[string]interface{}\<close> whose keys and value types are fixed by the
  schema of \<open>resourceDeployment\<close>; it is a record with one field for each key. The
  integers of the schema are Go \<open>int\<close>s.
\<close>

record disk =
  d_name :: string
  d_size :: go_int
  d_description :: string
  d_version :: go_int

record zdb =
  z_name :: string
  z_password :: string
  z_size :: go_int
  z_description :: string
  z_version :: go_int
  z_mode :: string

record mount =
  disk_name :: string
  mount_point :: string

record env_var =
  env_key :: string
  env_value :: string

record vm =
  vm_name :: string
  vm_flist :: string
  vm_version :: go_int
  vm_ip :: string
  vm_cpu :: go_int
  vm_memory :: go_int
  vm_entrypoint :: string
  vm_mounts :: "mount list"
  vm_env_vars :: "env_var list"

text \<open>\<open>reflect.DeepEqual\<close> on two lists of string-valued maps: equal lengths and equal
  elements, in order.\<close>

definition DeepEqual :: "'a \<Rightarrow> 'a \<Rightarrow> bool" where
  "DeepEqual x y = (x = y)"

fun diskHasChanged :: "disk \<Rightarrow> disk list \<Rightarrow> bool \<times> disk option" where
  "diskHasChanged disk [] = (False, None)"
| "diskHasChanged disk (diskData # oldDisks) =
     (if d_name diskData = d_name disk then
        (if d_description diskData \<noteq> d_description disk \<or> d_size diskData \<noteq> d_size disk
         then (True, Some diskData)
         else (False, Some diskData))
      else diskHasChanged disk oldDisks)"

fun zdbHasChanged :: "zdb \<Rightarrow> zdb list \<Rightarrow> bool \<times> zdb option" where
  "zdbHasChanged zdb [] = (False, None)"
| "zdbHasChanged zdb (zdbData # oldZdbs) =
     (if z_name zdbData = z_name zdb then
        (if z_password zdbData \<noteq> z_password zdb \<or> z_size zdbData \<noteq> z_size zdb
            \<or> z_description zdbData \<noteq> z_description zdb \<or> z_mode zdbData \<noteq> z_mode zdb
         then (True, Some zdbData)
         else (False, Some zdbData))
      else zdbHasChanged zdb oldZdbs)"

fun vmHasChanged :: "vm \<Rightarrow> vm list \<Rightarrow> bool \<times> vm option" where
  "vmHasChanged vm [] = (False, None)"
| "vmHasChanged vm (vmData # oldVms) =
     (if vm_name vmData = vm_name vm \<and> vm_flist vmData = vm_flist vm then
        (if vm_cpu vmData \<noteq> vm_cpu vm \<or> vm_memory vmData \<noteq> vm_memory vm
            \<or> vm_entrypoint vmData \<noteq> vm_entrypoint vm
            \<or> DeepEqual (vm_mounts vmData) (vm_mounts vm)
            \<or> DeepEqual (vm_env_vars vmData) (vm_env_vars vm)
         then (True, Some vmData)
         else (False, Some vmData))
      else vmHasChanged vm oldVms)"

subsection \<open>Building the workloads\<close>

text \<open>
  The collaborators are parameters: \<open>parseIP\<close> is \<open>net.ParseIP\<close>, and \<open>encrypt\<close> is
  \<open>crypto.EncryptECDH\<close> with the user's keys, which gives the cipher text or an error.
\<close>

definition hexDigit :: "nat \<Rightarrow> char" where
  "hexDigit n = ''0123456789abcdef'' ! n"

definition EncodeToString :: "byte list \<Rightarrow> string" where
  "EncodeToString bs = concat (map (\<lambda>b. [hexDigit (unat b div 16), hexDigit (unat b mod 16)]) bs)"

definition machineMounts :: "mount list \<Rightarrow> MachineMount list" where
  "machineMounts mount_points =
     map (\<lambda>point. \<lparr>mnt_Name = disk_name point, mnt_Mountpoint = mount_point point\<rparr>) mount_points"

text \<open>
  The map \<open>envVars\<close> is the list of its entries, one for each key. \<open>envVars[key] = value\<close>
  for each variable in turn: the last one written wins.
\<close>

fun setEntry :: "'k \<Rightarrow> 'v \<Rightarrow> ('k \<times> 'v) list \<Rightarrow> ('k \<times> 'v) list" where
  "setEntry k v [] = [(k, v)]"
| "setEntry k v ((k', v') # m) = (if k = k' then (k, v) # m else (k', v') # setEntry k v m)"

definition envMap :: "env_var list \<Rightarrow> (string \<times> string) list" where
  "envMap env_vars = fold (\<lambda>envVar m. setEntry (env_key envVar) (env_value envVar) m) env_vars []"

definition machineWorkload ::
  "go_int \<Rightarrow> vm \<Rightarrow> MachineInterface \<Rightarrow> Workload" where
  "machineWorkload version data iface =
     \<lparr>wl_Version = version, wl_Name = vm_name data, wl_Type = ZMachineType,
      wl_Description = [],
      wl_Data = ZMachineData
        \<lparr>FList = vm_flist data, Interfaces = [iface], Planetary = True,
         CPU = ucast (vm_cpu data), Memory = vm_memory data * Megabyte,
         Entrypoint = vm_entrypoint data, Mounts = machineMounts (vm_mounts data),
         Env = envMap (vm_env_vars data)\<rparr>,
      wl_Result = noResult\<rparr>"

definition diskWorkload :: "go_int \<Rightarrow> disk \<Rightarrow> Workload" where
  "diskWorkload version data =
     \<lparr>wl_Version = version, wl_Name = d_name data, wl_Type = ZMountType,
      wl_Description = d_description data, wl_Data = ZMountData (d_size data * Gigabyte),
      wl_Result = noResult\<rparr>"

definition zdbWorkload :: "go_int \<Rightarrow> zdb \<Rightarrow> byte list \<Rightarrow> Workload" where
  "zdbWorkload version data pwd =
     \<lparr>wl_Version = version, wl_Name = z_name data, wl_Type = ZDBType,
      wl_Description = z_description data,
      wl_Data = ZDBData (z_size data) (z_mode data) (EncodeToString pwd),
      wl_Result = noResult\<rparr>"

subsection \<open>The loops of \<open>resourceDeploymentCreate\<close>\<close>

text \<open>Each loop gives the workloads it appended and the resources it recorded.\<close>

fun createDisks :: "disk list \<Rightarrow> Workload list \<times> disk list" where
  "createDisks [] = ([], [])"
| "createDisks (disk # disks) =
     (let data = disk\<lparr>d_version := Version\<rparr>;
          workload = diskWorkload Version data;
          (workloads, updated_disks) = createDisks disks
      in (workload # workloads, data # updated_disks))"

fun createZdbs ::
  "(string \<Rightarrow> failure + byte list) \<Rightarrow> zdb list \<Rightarrow> failure + Workload list \<times> zdb list" where
  "createZdbs encrypt [] = Inr ([], [])"
| "createZdbs encrypt (zdb # zdbs) =
     (case encrypt (z_password zdb) of
        Inl e \<Rightarrow> Inl e
      | Inr pwd \<Rightarrow>
          (let data = zdb\<lparr>z_version := Version\<rparr>;
               workload = zdbWorkload Version data pwd
           in case createZdbs encrypt zdbs of
                Inl e \<Rightarrow> Inl e
              | Inr (workloads, updated_zdbs) \<Rightarrow> Inr (workload # workloads, data # updated_zdbs)))"

text \<open>
  The machines: each one takes the address \<open>getFreeIP\<close> gives for the used addresses so
  far, and the address joins them. The result also carries the final \<open>usedIPs\<close>.
\<close>

fun createVms ::
  "(string \<Rightarrow> byte list) \<Rightarrow> string \<Rightarrow> IPNet \<Rightarrow> string list \<Rightarrow> vm list
     \<Rightarrow> failure + Workload list \<times> vm list \<times> string list" where
  "createVms parseIP networkName ipRange usedIPs [] = Inr ([], [], usedIPs)"
| "createVms parseIP networkName ipRange usedIPs (vm # vms) =
     (case getFreeIP ipRange usedIPs of
        Inl e \<Rightarrow> Inl e
      | Inr freeIP \<Rightarrow>
          (let data = vm\<lparr>vm_version := Version, vm_ip := freeIP\<rparr>;
               workload = machineWorkload Version data
                  \<lparr>if_Network = networkName, if_IP = parseIP freeIP\<rparr>
           in case createVms parseIP networkName ipRange (usedIPs @ [freeIP]) vms of
                Inl e \<Rightarrow> Inl e
              | Inr (workloads, updated_vms, usedIPs') \<Rightarrow>
                  Inr (workload # workloads, data # updated_vms, usedIPs')))"

subsection \<open>The loops of \<open>resourceDeploymentUpdate\<close>\<close>

fun updateDisks :: "disk list \<Rightarrow> disk list \<Rightarrow> Workload list \<times> disk list" where
  "updateDisks oldDisks [] = ([], [])"
| "updateDisks oldDisks (disk # disks) =
     (let (changed, oldDisk) = diskHasChanged disk oldDisks;
          version = (if changed \<and> oldDisk \<noteq> None then d_version (the oldDisk) + 1
                     else if \<not> changed \<and> oldDisk \<noteq> None then d_version (the oldDisk)
                     else 0);
          data = disk\<lparr>d_version := version\<rparr>;
          workload = diskWorkload version data;
          (workloads, updatedDisks) = updateDisks oldDisks disks
      in (workload # workloads, data # updatedDisks))"

text \<open>The storage nodes: the workload is built with the constant \<open>Version\<close>.\<close>

fun updateZdbs ::
  "(string \<Rightarrow> failure + byte list) \<Rightarrow> zdb list \<Rightarrow> zdb list
     \<Rightarrow> failure + Workload list \<times> zdb list" where
  "updateZdbs encrypt oldZdbs [] = Inr ([], [])"
| "updateZdbs encrypt oldZdbs (zdb # zdbs) =
     (let (changed, oldZdb) = zdbHasChanged zdb oldZdbs;
          version = (if changed \<and> oldZdb \<noteq> None then z_version (the oldZdb) + 1
                     else if \<not> changed \<and> oldZdb \<noteq> None then z_version (the oldZdb)
                     else 0);
          data = zdb\<lparr>z_version := version\<rparr>
      in case encrypt (z_password data) of
           Inl e \<Rightarrow> Inl e
         | Inr pwd \<Rightarrow>
             (let workload = zdbWorkload Version data pwd
              in case updateZdbs encrypt oldZdbs zdbs of
                   Inl e \<Rightarrow> Inl e
                 | Inr (workloads, updatedZdbs) \<Rightarrow>
                     Inr (workload # workloads, data # updatedZdbs)))"

text \<open>The machines: the interface is the literal \<open>"network"\<close> and \<open>net.ParseIP("10.1.1.3")\<close>.\<close>

fun updateVms :: "(string \<Rightarrow> byte list) \<Rightarrow> vm list \<Rightarrow> vm list \<Rightarrow> Workload list \<times> vm list" where
  "updateVms parseIP oldVms [] = ([], [])"
| "updateVms parseIP oldVms (vm # vms) =
     (let (changed, oldVmachine) = vmHasChanged vm oldVms;
          version = (if changed \<and> oldVmachine \<noteq> None then vm_version (the oldVmachine) + 1
                     else if \<not> changed \<and> oldVmachine \<noteq> None then vm_version (the oldVmachine)
                     else 0);
          data = vm\<lparr>vm_version := version\<rparr>;
          workload = machineWorkload version data
             \<lparr>if_Network = ''network'', if_IP = parseIP ''10.1.1.3''\<rparr>;
          (workloads, updatedVms) = updateVms parseIP oldVms vms
      in (workload # workloads, data # updatedVms))"

subsection \<open>The deployment assembled by create and by update\<close>

text \<open>
  The state of the resource as the two functions read it from \<open>schema.ResourceData\<close>: the
  declared lists, the lists recorded by the previous apply (\<open>d.GetChange\<close>), and the
  scalar attributes. \<open>rd_ip_range\<close> is the parsed \<open>ip_range\<close>.
\<close>

record ResourceData =
  rd_nodeChanged :: bool
  rd_version :: go_int
  rd_oldDisks :: "disk list"
  rd_disks :: "disk list"
  rd_oldZdbs :: "zdb list"
  rd_zdbs :: "zdb list"
  rd_oldVms :: "vm list"
  rd_vms :: "vm list"
  rd_used_ips :: "string list"
  rd_ip_range :: IPNet
  rd_network_name :: string

text \<open>The deployment literal of the three functions that build one: a single signer.\<close>

definition newDeployment :: "32 word \<Rightarrow> go_int \<Rightarrow> Workload list \<Rightarrow> Deployment" where
  "newDeployment twin_id version workloads =
     \<lparr>dl_Version = version, dl_TwinID = twin_id, dl_ContractID = 0, dl_Workloads = workloads,
      dl_WeightRequired = 1,
      dl_Requests = [\<lparr>sr_TwinID = twin_id, sr_Weight = 1\<rparr>],
      dl_Signatures = []\<rparr>"

text \<open>
  \<open>resourceDeploymentCreate\<close> up to the deployment \<open>dl\<close> it then validates, signs and hands
  to \<open>node.DeploymentDeploy\<close>, with the state it records. The storage nodes are recorded
  under the key \<open>"zdb"\<close>, which the schema does not have, so \<open>rd_zdbs\<close> stays as declared.
\<close>

definition resourceDeploymentCreate ::
  "(string \<Rightarrow> byte list) \<Rightarrow> (string \<Rightarrow> failure + byte list) \<Rightarrow> 32 word \<Rightarrow> ResourceData
     \<Rightarrow> failure + Deployment \<times> ResourceData" where
  "resourceDeploymentCreate parseIP encrypt twin_id d =
     (let (w1, updated_disks) = createDisks (rd_disks d) in
      case createZdbs encrypt (rd_zdbs d) of
        Inl e \<Rightarrow> Inl e
      | Inr (w2, updated_zdbs) \<Rightarrow>
          (case createVms parseIP (rd_network_name d) (rd_ip_range d) (rd_used_ips d) (rd_vms d) of
             Inl e \<Rightarrow> Inl e
           | Inr (w3, updated_vms, usedIPs) \<Rightarrow>
               Inr (newDeployment twin_id Version (w1 @ w2 @ w3),
                    d\<lparr>rd_disks := updated_disks, rd_vms := updated_vms,
                      rd_used_ips := usedIPs\<rparr>)))"

text \<open>
  \<open>resourceDeploymentUpdate\<close> up to the deployment \<open>dl\<close> it then validates, signs and hands
  to \<open>node.DeploymentUpdate\<close>, with the state it records.
\<close>

definition resourceDeploymentUpdate ::
  "(string \<Rightarrow> byte list) \<Rightarrow> (string \<Rightarrow> failure + byte list) \<Rightarrow> 32 word \<Rightarrow> ResourceData
     \<Rightarrow> failure + Deployment \<times> ResourceData" where
  "resourceDeploymentUpdate parseIP encrypt twin_id d =
     (if rd_nodeChanged d then
        Inl (Err (''changing node is not supported, you need to destroy the deployment ''
                   @ ''and reapply it again''))
      else
        (let (w1, updatedDisks) = updateDisks (rd_oldDisks d) (rd_disks d) in
         case updateZdbs encrypt (rd_oldZdbs d) (rd_zdbs d) of
           Inl e \<Rightarrow> Inl e
         | Inr (w2, updatedZdbs) \<Rightarrow>
             (let (w3, updatedVms) = updateVms parseIP (rd_oldVms d) (rd_vms d)
              in Inr (newDeployment twin_id (rd_version d + 1) (w1 @ w2 @ w3),
                      d\<lparr>rd_disks := updatedDisks, rd_zdbs := updatedZdbs,
                        rd_vms := updatedVms\<rparr>))))"

section \<open>resource\_network.go: topology generation\<close>

type_synonym Key = "byte list"

record NetworkConfiguration =
  NodeIDs :: "go_int list"
  Keys :: "go_int \<rightharpoonup> Key"
  Versions :: "go_int \<rightharpoonup> go_int"
  DeplotmentIDs :: "go_int \<rightharpoonup> go_int"
  IPs :: "go_int \<rightharpoonup> IPNet"
  WGPort :: "go_int \<rightharpoonup> go_int"
  PublicNodeID :: go_int
  ExternalNodeIP :: IPNet
  ExternalNodeKey :: Key

record DeploymentInformation =
  WGAccessConfiguration :: string
  Deployments :: "Deployment list"

record UserIdentityInfo =
  TwinID :: "32 word"
  UserSK :: "byte list"

text \<open>
  What \<open>generateDeployments\<close> calls outside the package: \<open>Key.PublicKey\<close> and \<open>Key.String\<close>
  of \<open>wgtypes\<close>; \<open>Deployment.Valid\<close> of \<open>gridtypes\<close>, with the error it may give; and the
  signature that \<open>Deployment.Sign\<close> computes, or its error. \<open>Deployment.Sign\<close> records the
  signature for the twin and leaves the rest of the deployment as it is.
\<close>

record collaborators =
  PublicKey :: "Key \<Rightarrow> Key"
  KeyString :: "Key \<Rightarrow> string"
  Valid :: "Deployment \<Rightarrow> string option"
  Signature :: "32 word \<Rightarrow> byte list \<Rightarrow> Deployment \<Rightarrow> string + string"

definition Sign ::
  "collaborators \<Rightarrow> 32 word \<Rightarrow> byte list \<Rightarrow> Deployment \<Rightarrow> string + Deployment" where
  "Sign c twin sk dl =
     (case Signature c twin sk dl of
        Inl err \<Rightarrow> Inl err
      | Inr signature \<Rightarrow>
          Inr (dl\<lparr>dl_Signatures := setEntry twin signature (dl_Signatures dl)\<rparr>))"

text \<open>The zero values a Go map gives at a missing key.\<close>

definition zeroKey :: Key where
  "zeroKey = replicate 32 0"

definition zeroIPNet :: IPNet where
  "zeroIPNet = \<lparr>IP = [], Mask = []\<rparr>"

definition keyOf :: "NetworkConfiguration \<Rightarrow> go_int \<Rightarrow> Key" where
  "keyOf nc n = (case Keys nc n of None \<Rightarrow> zeroKey | Some k \<Rightarrow> k)"

definition ipOf :: "NetworkConfiguration \<Rightarrow> go_int \<Rightarrow> IPNet" where
  "ipOf nc n = (case IPs nc n of None \<Rightarrow> zeroIPNet | Some r \<Rightarrow> r)"

definition portOf :: "NetworkConfiguration \<Rightarrow> go_int \<Rightarrow> go_int" where
  "portOf nc n = (case WGPort nc n of None \<Rightarrow> 0 | Some p \<Rightarrow> p)"

definition wgIP :: "IPNet \<Rightarrow> failure + IPNet" where
  "wgIP ip =
     (let l = int (length (IP ip)) in
      andThen (index (IP ip) (l - 3)) (\<lambda>a.
      andThen (index (IP ip) (l - 2)) (\<lambda>b.
      Inr \<lparr>IP = IPv4 100 64 a b, Mask = CIDRMask 32 32\<rparr>)))"

definition generateWGConfig :: "string \<Rightarrow> string \<Rightarrow> string \<Rightarrow> string \<Rightarrow> string \<Rightarrow> string" where
  "generateWGConfig Address AccessPrivatekey NodePublicKey NodeEndpoint NetworkIPRange =
     ''\<newline>[Interface]\<newline>Address = '' @ Address
     @ ''\<newline>PrivateKey = '' @ AccessPrivatekey
     @ ''\<newline>[Peer]\<newline>PublicKey = '' @ NodePublicKey
     @ ''\<newline>AllowedIPs = '' @ NetworkIPRange @ '', 100.64.0.0/16''
     @ ''\<newline>PersistentKeepalive = 25''
     @ ''\<newline>Endpoint = '' @ NodeEndpoint
     @ [CHR 0x0A, CHR 0x09]"

text \<open>The peer entry the inner loop appends for a neighbour.\<close>

definition peerFor :: "collaborators \<Rightarrow> NetworkConfiguration \<Rightarrow> go_int \<Rightarrow> failure + Peer" where
  "peerFor c nc neigh =
     (let neigh_ip_range = ipOf nc neigh;
          neigh_port = portOf nc neigh;
          neigh_pubkey = KeyString c (PublicKey c (keyOf nc neigh))
      in andThen (wgIP neigh_ip_range) (\<lambda>w.
         andThen (if neigh = PublicNodeID nc
                  then andThen (wgIP (ExternalNodeIP nc)) (\<lambda>x.
                         Inr [neigh_ip_range, w, ExternalNodeIP nc, x])
                  else Inr [neigh_ip_range, w]) (\<lambda>allowed_ips.
         Inr \<lparr>peer_Subnet = neigh_ip_range, peer_WGPublicKey = neigh_pubkey,
              peer_Endpoint = getNodeEndpoint neigh neigh_port,
              peer_AllowedIPs = allowed_ips\<rparr>)))"

fun neighbours ::
  "collaborators \<Rightarrow> NetworkConfiguration \<Rightarrow> go_int \<Rightarrow> go_int list \<Rightarrow> failure + Peer list" where
  "neighbours c nc node [] = Inr []"
| "neighbours c nc node (neigh # rest) =
     (if node = neigh then neighbours c nc node rest
      else case peerFor c nc neigh of
             Inl e \<Rightarrow> Inl e
           | Inr p \<Rightarrow>
               (case neighbours c nc node rest of
                  Inl e \<Rightarrow> Inl e
                | Inr ps \<Rightarrow> Inr (p # ps)))"

text \<open>The access configuration written when the node is the public one.\<close>

definition accessConfig :: "collaborators \<Rightarrow> NetworkConfiguration \<Rightarrow> go_int \<Rightarrow> string" where
  "accessConfig c nc node =
     generateWGConfig ''100.64.1.2'' (KeyString c (ExternalNodeKey nc))
       (KeyString c (PublicKey c (keyOf nc node)))
       (''185.206.122.31'' @ '':'' @ fmt_d (sint (portOf nc (PublicNodeID nc))))
       ''10.1.0.0/16''"

definition externalPeer :: "collaborators \<Rightarrow> NetworkConfiguration \<Rightarrow> failure + Peer" where
  "externalPeer c nc =
     andThen (wgIP (ExternalNodeIP nc)) (\<lambda>x.
     Inr \<lparr>peer_Subnet = ExternalNodeIP nc,
          peer_WGPublicKey = KeyString c (PublicKey c (ExternalNodeKey nc)),
          peer_Endpoint = [],
          peer_AllowedIPs = [ExternalNodeIP nc, x]\<rparr>)"

text \<open>
  One round of the outer loop: the access configuration, when this round writes it, and
  the signed deployment of the node.
\<close>

definition nodeDeployment ::
  "collaborators \<Rightarrow> NetworkConfiguration \<Rightarrow> UserIdentityInfo \<Rightarrow> go_int
     \<Rightarrow> failure + string option \<times> Deployment" where
  "nodeDeployment c nc userInfo node =
     andThen (neighbours c nc node (NodeIDs nc)) (\<lambda>ps.
     andThen (if node = PublicNodeID nc
              then andThen (externalPeer c nc) (\<lambda>x. Inr (Some (accessConfig c nc node), ps @ [x]))
              else Inr (None, ps)) (\<lambda>(WGConfig, peers).
     case IPs nc node of
       None \<Rightarrow> Inl (Panic ''why node ip range not found'')
     | Some node_ip_range \<Rightarrow>
     (case WGPort nc node of
       None \<Rightarrow> Inl (Panic ''free port of node not found'')
     | Some node_port \<Rightarrow>
     (let workload =
            \<lparr>wl_Version = 0, wl_Name = ''network1'', wl_Type = NetworkType,
             wl_Description = ''test network'',
             wl_Data = NetworkData
               \<lparr>net_NetworkIPRange = ipNet 10 1 0 0 16, net_Subnet = node_ip_range,
                WGPrivateKey = KeyString c (keyOf nc node),
                WGListenPort = ucast node_port, Peers = peers\<rparr>,
             wl_Result = noResult\<rparr>;
          deployment = newDeployment (TwinID userInfo) Version [workload]
      in case Valid c deployment of
           Some err \<Rightarrow> Inl (Panic (''invalid: '' @ err))
         | None \<Rightarrow>
             (case Sign c (TwinID userInfo) (UserSK userInfo) deployment of
                Inl err \<Rightarrow> Inl (Panic err)
              | Inr deployment' \<Rightarrow> Inr (WGConfig, deployment'))))))"

fun generateLoop ::
  "collaborators \<Rightarrow> NetworkConfiguration \<Rightarrow> UserIdentityInfo \<Rightarrow> go_int list
     \<Rightarrow> DeploymentInformation \<Rightarrow> failure + DeploymentInformation" where
  "generateLoop c nc userInfo [] info = Inr info"
| "generateLoop c nc userInfo (node # nodes) info =
     (case nodeDeployment c nc userInfo node of
        Inl e \<Rightarrow> Inl e
      | Inr (WGConfig, deployment) \<Rightarrow>
          generateLoop c nc userInfo nodes
            \<lparr>WGAccessConfiguration =
               (case WGConfig of None \<Rightarrow> WGAccessConfiguration info | Some cfg \<Rightarrow> cfg),
             Deployments = Deployments info @ [deployment]\<rparr>)"

definition generateDeployments ::
  "collaborators \<Rightarrow> NetworkConfiguration \<Rightarrow> UserIdentityInfo \<Rightarrow> failure + DeploymentInformation" where
  "generateDeployments c nc userInfo =
     generateLoop c nc userInfo (NodeIDs nc) \<lparr>WGAccessConfiguration = [], Deployments = []\<rparr>"

text \<open>
  Reading the result: the peer list in the network workload of a node's deployment, and
  the nodes other than a given one, in the order of \<open>NodeIDs\<close>.
\<close>

definition peersOf :: "Deployment \<Rightarrow> Peer list" where
  "peersOf dl =
     (case dl_Workloads dl of
        [w] \<Rightarrow> (case wl_Data w of NetworkData n \<Rightarrow> Peers n | _ \<Rightarrow> [])
      | _ \<Rightarrow> [])"


section \<open>resource\_deployment.go: waiting for a deployment\<close>

text \<open>
  \<open>waitDeployment\<close> talks to a clock and to the node. The world is given by what it
  answers: \<open>since w k\<close> is the value of the \<open>k\<close>-th evaluation of \<open>time.Since(start)\<close>, in
  nanoseconds, and \<open>fetched w k\<close> the result of the \<open>k\<close>-th \<open>nodeClient.DeploymentGet\<close>, an
  error text or a deployment. The calls the function makes are logged in order;
  \<open>Sleep\<close> stands for \<open>time.Sleep\<close>, the call a polling delay would be.
\<close>

record world =
  since :: "nat \<Rightarrow> int"
  fetched :: "nat \<Rightarrow> string + Deployment"

datatype call = Since | DeploymentGet uint64 | Sleep int

definition Minute :: int where
  "Minute = 60 * 1000000000"

definition workloadFailed :: "nat \<Rightarrow> uint64 \<Rightarrow> string \<Rightarrow> string" where
  "workloadFailed idx deploymentID err =
     ''workload '' @ fmt_d (int idx) @ '' failed within deployment '' @ fmt_d (uint deploymentID)
       @ '' with error '' @ err"

definition timedOut :: "uint64 \<Rightarrow> string" where
  "timedOut deploymentID = ''waiting for deployment '' @ fmt_d (uint deploymentID) @ '' timedout''"

text \<open>
  The inner loop over the workloads, from index \<open>idx\<close> with the flag \<open>done\<close>: the error of
  the first workload whose state is neither empty nor \<open>StateOk\<close>, or else the flag.
\<close>

fun scanWorkloads :: "uint64 \<Rightarrow> nat \<Rightarrow> Workload list \<Rightarrow> bool \<Rightarrow> string + bool" where
  "scanWorkloads deploymentID idx [] done = Inr done"
| "scanWorkloads deploymentID idx (wl # wls) done =
     (if State (wl_Result wl) = [] then scanWorkloads deploymentID (idx + 1) wls False
      else if State (wl_Result wl) \<noteq> StateOk
      then Inl (workloadFailed idx deploymentID (Error (wl_Result wl)))
      else scanWorkloads deploymentID (idx + 1) wls done)"

text \<open>
  The outer loop, at its \<open>k\<close>-th round with the calls \<open>log\<close> made so far. The result is
  the log with the returned error, \<open>None\<close> for \<open>nil\<close>. A run that never returns has no
  result.
\<close>

partial_function (option) waitLoop ::
  "world \<Rightarrow> uint64 \<Rightarrow> nat \<Rightarrow> call list \<Rightarrow> (call list \<times> string option) option" where
  "waitLoop w deploymentID k log =
     (if since w k < 4 * Minute then
        (case fetched w k of
           Inl err \<Rightarrow> Some (log @ [Since, DeploymentGet deploymentID], Some err)
         | Inr dl \<Rightarrow>
             (case scanWorkloads deploymentID 0 (dl_Workloads dl) True of
                Inl err \<Rightarrow> Some (log @ [Since, DeploymentGet deploymentID], Some err)
              | Inr done \<Rightarrow>
                  if done then Some (log @ [Since, DeploymentGet deploymentID], None)
                  else waitLoop w deploymentID (Suc k) (log @ [Since, DeploymentGet deploymentID])))
      else Some (log @ [Since], Some (timedOut deploymentID)))"

declare waitLoop.simps [code]

definition waitDeployment :: "world \<Rightarrow> uint64 \<Rightarrow> (call list \<times> string option) option" where
  "waitDeployment w deploymentID = waitLoop w deploymentID 0 []"

text \<open>
  A round that ends with workloads still pending: the budget is not used up, the fetch
  succeeds, no workload has failed, and one at least has no state yet.
\<close>

definition pending :: "world \<Rightarrow> uint64 \<Rightarrow> nat \<Rightarrow> bool" where
  "pending w deploymentID k \<longleftrightarrow>
     since w k < 4 * Minute \<and>
     (case fetched w k of
        Inl err \<Rightarrow> False
      | Inr dl \<Rightarrow> scanWorkloads deploymentID 0 (dl_Workloads dl) True = Inr False)"

section \<open>Example inputs\<close>

text \<open>
  A network of the nodes 1 and 5 as \<open>resourceNetworkCreate\<close> sets it up: node 1 is the
  public node, the external access subnet is \<open>10.1.2.0/24\<close>, and the node at position
  \<open>idx\<close> has the subnet \<open>10.1.(idx + 3).0/24\<close>. The keys and the collaborators are
  stand-ins that compute.
\<close>

definition exampleCollaborators :: collaborators where
  "exampleCollaborators =
     \<lparr>PublicKey = rev, KeyString = EncodeToString, Valid = (\<lambda>dl. None),
      Signature = (\<lambda>twin sk dl. Inr (EncodeToString sk))\<rparr>"

definition exampleConfig :: NetworkConfiguration where
  "exampleConfig =
     \<lparr>NodeIDs = [1, 5],
      Keys = [1 \<mapsto> [1, 10], 5 \<mapsto> [5, 50]],
      Versions = Map.empty,
      DeplotmentIDs = Map.empty,
      IPs = [1 \<mapsto> ipNet 10 1 3 0 24, 5 \<mapsto> ipNet 10 1 4 0 24],
      WGPort = [1 \<mapsto> 3001, 5 \<mapsto> 3005],
      PublicNodeID = 1,
      ExternalNodeIP = ipNet 10 1 2 0 24,
      ExternalNodeKey = [9, 90]\<rparr>"

definition exampleUser :: UserIdentityInfo where
  "exampleUser = \<lparr>TwinID = 14, UserSK = [7]\<rparr>"

text \<open>
  The peer entries of the example for node 1, for node 5 and for the external access
  point.
\<close>

text \<open>The access configuration of the example: the keys \<open>[9, 90]\<close> and \<open>rev [1, 10]\<close> in
  the stand-in notation, and the port 3001 of node 1.\<close>

definition exampleAccess :: string where
  "exampleAccess =
     ''\<newline>[Interface]\<newline>Address = 100.64.1.2\<newline>PrivateKey = 095a''
     @ ''\<newline>[Peer]\<newline>PublicKey = 0a01''
     @ ''\<newline>AllowedIPs = 10.1.0.0/16, 100.64.0.0/16''
     @ ''\<newline>PersistentKeepalive = 25''
     @ ''\<newline>Endpoint = 185.206.122.31:3001'' @ [CHR 0x0A, CHR 0x09]"




definition web1 :: vm where
  "web1 =
     \<lparr>vm_name = ''web1'', vm_flist = ''https://hub.grid.tf/tf-official-apps/base.flist'',
      vm_version = 0, vm_ip = [], vm_cpu = 1, vm_memory = 1024, vm_entrypoint = ''/sbin/zinit init'',
      vm_mounts = [\<lparr>disk_name = ''data'', mount_point = ''/data''\<rparr>],
      vm_env_vars = [\<lparr>env_key = ''SSH_KEY'', env_value = ''ssh-rsa AAAA''\<rparr>]\<rparr>"

definition db1 :: zdb where
  "db1 =
     \<lparr>z_name = ''db1'', z_password = ''secret'', z_size = 10, z_description = ''store'',
      z_version = 0, z_mode = ''user''\<rparr>"

definition exampleEncrypt :: "string \<Rightarrow> failure + byte list" where
  "exampleEncrypt password = Inr (map (of_char :: char \<Rightarrow> byte) (rev password))"

definition exampleParseIP :: "string \<Rightarrow> byte list" where
  "exampleParseIP text = map (of_char :: char \<Rightarrow> byte) text"

text \<open>
  A world that follows a script: round \<open>k\<close> reads the clock at the \<open>k\<close>-th time of the
  script and fetches a deployment whose workloads have the \<open>k\<close>-th results; once the
  script is over, the budget of four minutes is used up.
\<close>

definition resultOf :: "string \<times> string \<Rightarrow> Workload" where
  "resultOf r =
     (diskWorkload 0 \<lparr>d_name = ''disk'', d_size = 1, d_description = [], d_version = 0\<rparr>)
       \<lparr>wl_Result := \<lparr>State = fst r, Error = snd r\<rparr>\<rparr>"

definition scripted :: "(int \<times> (string \<times> string) list) list \<Rightarrow> world" where
  "scripted script =
     \<lparr>since = (\<lambda>k. if k < length script then fst (script ! k) else 4 * Minute),
      fetched = (\<lambda>k. Inr (newDeployment 14 0
                  (map resultOf (if k < length script then snd (script ! k) else []))))\<rparr>"

text \<open>One workload that is pending at the first fetch and is done at the second.\<close>

definition worldDone :: world where
  "worldDone = scripted [(1000, [([], [])]), (2000, [(''ok'', [])])]"

text \<open>Two workloads, the second of which has failed at the second fetch.\<close>

definition worldFailed :: world where
  "worldFailed =
     scripted [(1000, [([], []), ([], [])]), (2000, [(''ok'', []), (''error'', ''boom'')])]"

text \<open>One workload that stays pending.\<close>

definition worldPending :: world where
  "worldPending = scripted [(1000, [([], [])]), (2000, [([], [])])]"

section \<open>Properties of address allocation\<close>

lemma isInStr_iff: "isInStr l i \<longleftrightarrow> i \<in> set l"
  by (induction l) auto

lemma candidate_16: "length (IP ipRange) = 16 \<Longrightarrow> candidate ipRange i = Inr (hostAddr ipRange i)"
  by (simp add: candidate_def hostAddr_def andThen_def index_def ipNet_def IPv4_def v4InV6Prefix_def Let_def)

lemma loop_Inr:
  "length (IP ipRange) = 16 \<Longrightarrow> getFreeIP_loop ipRange usedIPs i = Inr s \<Longrightarrow>
     \<exists>h. i \<le> h \<and> h < 255 \<and> s = hostAddr ipRange h \<and> s \<notin> set usedIPs
        \<and> (\<forall>j. i \<le> j \<and> j < h \<longrightarrow> hostAddr ipRange j \<in> set usedIPs)"
proof (induction ipRange usedIPs i rule: getFreeIP_loop.induct)
  case (1 ipRange usedIPs i)
  have c: "candidate ipRange i = Inr (hostAddr ipRange i)"
    using "1.prems"(1) by (rule candidate_16)
  have lt: "i < 255"
    using "1.prems"(2) by (subst (asm) getFreeIP_loop.simps) (simp split: if_splits)
  show ?case
  proof (cases "isInStr usedIPs (hostAddr ipRange i)")
    case False
    then have "s = hostAddr ipRange i"
      using "1.prems"(2) lt c by (subst (asm) getFreeIP_loop.simps) simp
    with False lt show ?thesis
      by (intro exI [of _ i]) (auto simp: isInStr_iff)
  next
    case True
    then have "getFreeIP_loop ipRange usedIPs (i + 1) = Inr s"
      using "1.prems"(2) lt c by (subst (asm) getFreeIP_loop.simps) simp
    with "1.IH" [OF lt c] True "1.prems"(1)
    obtain h where h: "i + 1 \<le> h" "h < 255" "s = hostAddr ipRange h" "s \<notin> set usedIPs"
      "\<forall>j. i + 1 \<le> j \<and> j < h \<longrightarrow> hostAddr ipRange j \<in> set usedIPs"
      by auto
    have "\<forall>j. i \<le> j \<and> j < h \<longrightarrow> hostAddr ipRange j \<in> set usedIPs"
    proof (intro allI impI)
      fix j assume j: "i \<le> j \<and> j < h"
      show "hostAddr ipRange j \<in> set usedIPs"
      proof (cases "j = i")
        case True
        with \<open>isInStr usedIPs (hostAddr ipRange i)\<close> show ?thesis by (simp add: isInStr_iff)
      next
        case False
        with j h(5) show ?thesis by simp
      qed
    qed
    with h show ?thesis by (intro exI [of _ h]) simp
  qed
qed

lemma loop_Inl:
  "length (IP ipRange) = 16 \<Longrightarrow> getFreeIP_loop ipRange usedIPs i = Inl e \<Longrightarrow>
     e = Err ''all ips are used'' \<and> (\<forall>h. i \<le> h \<and> h < 255 \<longrightarrow> hostAddr ipRange h \<in> set usedIPs)"
proof (induction ipRange usedIPs i rule: getFreeIP_loop.induct)
  case (1 ipRange usedIPs i)
  have c: "candidate ipRange i = Inr (hostAddr ipRange i)"
    using "1.prems"(1) by (rule candidate_16)
  show ?case
  proof (cases "i < 255")
    case False
    with "1.prems"(2) show ?thesis
      by (subst (asm) getFreeIP_loop.simps) auto
  next
    case lt: True
    have used: "isInStr usedIPs (hostAddr ipRange i)"
      using "1.prems"(2) lt c by (subst (asm) getFreeIP_loop.simps) (simp split: if_splits)
    then have "getFreeIP_loop ipRange usedIPs (i + 1) = Inl e"
      using "1.prems"(2) lt c by (subst (asm) getFreeIP_loop.simps) simp
    with "1.IH" [OF lt c] used "1.prems"(1)
    have e: "e = Err ''all ips are used''"
      and rest: "\<forall>h. i + 1 \<le> h \<and> h < 255 \<longrightarrow> hostAddr ipRange h \<in> set usedIPs"
      by auto
    have "\<forall>h. i \<le> h \<and> h < 255 \<longrightarrow> hostAddr ipRange h \<in> set usedIPs"
    proof (intro allI impI)
      fix h assume h: "i \<le> h \<and> h < 255"
      show "hostAddr ipRange h \<in> set usedIPs"
      proof (cases "h = i")
        case True
        with used show ?thesis by (simp add: isInStr_iff)
      next
        case False
        with h rest show ?thesis by simp
      qed
    qed
    with e show ?thesis by simp
  qed
qed

lemma digit_inj: "a < 10 \<Longrightarrow> b < 10 \<Longrightarrow> ''0123456789'' ! a = ''0123456789'' ! b \<Longrightarrow> a = b"
  by (auto simp: less_Suc_eq numeral_eq_Suc nth_Cons')

lemma digits_nonempty: "digits n \<noteq> []"
  by (subst digits.simps) simp

lemma digits_inj: "digits m = digits n \<Longrightarrow> m = n"
proof (induction m arbitrary: n rule: digits.induct)
  case (1 m)
  show ?case
  proof (cases "m < 10")
    case True
    show ?thesis
    proof (cases "n < 10")
      case n: True
      from "1.prems" True n have "''0123456789'' ! m = ''0123456789'' ! n"
        by (simp add: digits.simps [of m] digits.simps [of n])
      with True n show ?thesis by (simp add: digit_inj)
    next
      case False
      with "1.prems" True digits_nonempty [of "n div 10"] show ?thesis
        by (simp add: digits.simps [of m] digits.simps [of n])
    qed
  next
    case m: False
    show ?thesis
    proof (cases "n < 10")
      case True
      with "1.prems" m digits_nonempty [of "m div 10"] show ?thesis
        by (simp add: digits.simps [of m] digits.simps [of n])
    next
      case False
      with "1.prems" m have eq: "digits (m div 10) = digits (n div 10)"
        and d: "''0123456789'' ! (m mod 10) = ''0123456789'' ! (n mod 10)"
        by (simp_all add: digits.simps [of m] digits.simps [of n])
      from "1.IH" [OF m eq] have "m div 10 = n div 10" .
      moreover from d have "m mod 10 = n mod 10"
        by (simp add: digit_inj)
      ultimately show ?thesis
        by (metis div_mult_mod_eq)
    qed
  qed
qed

lemma digits_chars: "set (digits n) \<subseteq> set ''0123456789''"
proof (induction n rule: digits.induct)
  case (1 n)
  have d: "\<And>k. k < 10 \<Longrightarrow> ''0123456789'' ! k \<in> set ''0123456789''"
    by (rule nth_mem) simp
  show ?case
  proof (cases "n < 10")
    case True
    with d [of n] show ?thesis by (subst digits.simps) simp
  next
    case False
    with "1.IH" d [of "n mod 10"] show ?thesis by (subst digits.simps) simp
  qed
qed

lemma fmt_d_byte: "fmt_d (uint (b :: byte)) = digits (unat b)"
  by (simp add: fmt_d_def)

lemma dotted_no_slash: "CHR ''/'' \<notin> set (dotted p q r s)"
  using digits_chars [of "unat p"] digits_chars [of "unat q"] digits_chars [of "unat r"]
    digits_chars [of "unat s"]
  by (auto simp: dotted_def fmt_d_byte)

lemma dotted_last_inj:
  assumes "dotted p q r s = dotted p q r s'"
  shows "s = s'"
proof -
  from assms have "digits (unat s) = digits (unat s')"
    by (simp add: dotted_def fmt_d_byte)
  then have "unat s = unat s'" by (rule digits_inj)
  then show ?thesis by (simp add: word_eq_iff_unsigned [where ?'a = nat])
qed

lemma hostAddr_inj:
  assumes "0 \<le> h" "h < 256" "0 \<le> h'" "h' < 256" "hostAddr ipRange h = hostAddr ipRange h'"
  shows "h = h'"
proof -
  from assms(5) have "(word_of_int h :: byte) = word_of_int h'"
    unfolding hostAddr_def by (rule dotted_last_inj)
  then have "uint (word_of_int h :: byte) = uint (word_of_int h' :: byte)" by simp
  with assms(1-4) show ?thesis by (simp add: uint_word_of_int)
qed

lemma getFreeIP_Inr:
  assumes "length (IP ipRange) = 16" "getFreeIP ipRange usedIPs = Inr s"
  shows "\<exists>h. 2 \<le> h \<and> h \<le> 254 \<and> s = hostAddr ipRange h \<and> s \<notin> set usedIPs
           \<and> (\<forall>j. 2 \<le> j \<and> j < h \<longrightarrow> hostAddr ipRange j \<in> set usedIPs)"
proof -
  from loop_Inr [OF assms(1), of usedIPs 2 s] assms(2)
  obtain h where h: "2 \<le> h" "h < 255" "s = hostAddr ipRange h" "s \<notin> set usedIPs"
    "\<forall>j. 2 \<le> j \<and> j < h \<longrightarrow> hostAddr ipRange j \<in> set usedIPs"
    by (auto simp: getFreeIP_def)
  from h(2) have "h \<le> 254" by simp
  with h show ?thesis by blast
qed

lemma getFreeIP_Inl:
  assumes "length (IP ipRange) = 16" "getFreeIP ipRange usedIPs = Inl e"
  shows "e = Err ''all ips are used'' \<and>
         (\<forall>h. 2 \<le> h \<and> h \<le> 254 \<longrightarrow> hostAddr ipRange h \<in> set usedIPs)"
proof -
  from loop_Inl [OF assms(1), of usedIPs 2 e] assms(2)
  have e: "e = Err ''all ips are used''"
    and a: "\<forall>h. 2 \<le> h \<and> h < 255 \<longrightarrow> hostAddr ipRange h \<in> set usedIPs"
    by (auto simp: getFreeIP_def)
  have "\<forall>h. 2 \<le> h \<and> h \<le> 254 \<longrightarrow> hostAddr ipRange h \<in> set usedIPs"
  proof (intro allI impI)
    fix h :: int assume "2 \<le> h \<and> h \<le> 254"
    then have "2 \<le> h \<and> h < 255" by simp
    with a show "hostAddr ipRange h \<in> set usedIPs" by blast
  qed
  with e show ?thesis by simp
qed

lemma getFreeIP_first:
  assumes l: "length (IP ipRange) = 16"
    and h: "2 \<le> h" "h \<le> 254" "hostAddr ipRange h \<notin> set usedIPs"
      "\<forall>j. 2 \<le> j \<and> j < h \<longrightarrow> hostAddr ipRange j \<in> set usedIPs"
  shows "getFreeIP ipRange usedIPs = Inr (hostAddr ipRange h)"
proof (cases "getFreeIP ipRange usedIPs")
  case (Inl e)
  from getFreeIP_Inl [OF l Inl] h(1-3) show ?thesis by blast
next
  case (Inr s)
  from getFreeIP_Inr [OF l Inr]
  obtain h' where h': "2 \<le> h'" "h' \<le> 254" "s = hostAddr ipRange h'" "s \<notin> set usedIPs"
    "\<forall>j. 2 \<le> j \<and> j < h' \<longrightarrow> hostAddr ipRange j \<in> set usedIPs"
    by blast
  have "\<not> h' < h" using h(4) h'(1,3,4) by blast
  moreover have "\<not> h < h'" using h'(5) h(1,3) by blast
  ultimately have "h' = h" by simp
  with Inr h'(3) show ?thesis by simp
qed

lemma createVms_ips:
  "length (IP ipRange) = 16 \<Longrightarrow>
   createVms parseIP networkName ipRange usedIPs vms = Inr (workloads, updated_vms, usedIPs') \<Longrightarrow>
     usedIPs' = usedIPs @ map vm_ip updated_vms \<and> distinct (map vm_ip updated_vms)
       \<and> set (map vm_ip updated_vms) \<inter> set usedIPs = {}
       \<and> length updated_vms = length vms"
proof (induction vms arbitrary: usedIPs workloads updated_vms usedIPs')
  case Nil
  then show ?case by simp
next
  case (Cons vm vms)
  from Cons.prems(2) obtain freeIP where f: "getFreeIP ipRange usedIPs = Inr freeIP"
    by (cases "getFreeIP ipRange usedIPs") simp_all
  from Cons.prems(2) f obtain ws us where
    r: "createVms parseIP networkName ipRange (usedIPs @ [freeIP]) vms = Inr (ws, us, usedIPs')"
    and u: "updated_vms = vm\<lparr>vm_version := Version, vm_ip := freeIP\<rparr> # us"
    by (auto simp: Let_def split: sum.splits)
  from getFreeIP_Inr [OF Cons.prems(1) f] have nu: "freeIP \<notin> set usedIPs" by blast
  from Cons.IH [OF Cons.prems(1) r]
  have ih: "usedIPs' = (usedIPs @ [freeIP]) @ map vm_ip us" "distinct (map vm_ip us)"
    "set (map vm_ip us) \<inter> set (usedIPs @ [freeIP]) = {}" "length us = length vms"
    by simp_all
  from ih nu u show ?case by auto
qed

text \<open>
  C4 (as amended). For a subnet whose address has the 16-byte form, \<open>getFreeIP\<close> returns
  the address of the first host-id in 2..254 whose address is not among the used ones, as
  the bare dotted text \<open>a.b.c.h\<close> (no mask is part of the text, and it is never the
  address of host-id 0, 1 or 255); it fails, with the error \<open>all ips are used\<close>, exactly
  when the address of every host-id in 2..254 is used; the address returned is not a used
  one, so that the machines of one create, each given the address returned for the
  addresses used so far, get pairwise different addresses that were not used before.
\<close>

theorem getFreeIP_first_free:
  assumes "length (IP ipRange) = 16"
  shows "(getFreeIP ipRange usedIPs = Inr s \<longleftrightarrow>
            (\<exists>h. 2 \<le> h \<and> h \<le> 254 \<and> s = hostAddr ipRange h \<and> s \<notin> set usedIPs
               \<and> (\<forall>j. 2 \<le> j \<and> j < h \<longrightarrow> hostAddr ipRange j \<in> set usedIPs)))
       \<and> (getFreeIP ipRange usedIPs = Inl e \<longleftrightarrow>
            e = Err ''all ips are used''
            \<and> (\<forall>h. 2 \<le> h \<and> h \<le> 254 \<longrightarrow> hostAddr ipRange h \<in> set usedIPs))
       \<and> (getFreeIP ipRange usedIPs = Inr s \<longrightarrow>
            CHR ''/'' \<notin> set s \<and> s \<noteq> hostAddr ipRange 0 \<and> s \<noteq> hostAddr ipRange 1
            \<and> s \<noteq> hostAddr ipRange 255 \<and> getFreeIP ipRange (usedIPs @ [s]) \<noteq> Inr s)
       \<and> (createVms parseIP networkName ipRange usedIPs vms = Inr (workloads, updated_vms, usedIPs')
            \<longrightarrow> distinct (map vm_ip updated_vms)
              \<and> set (map vm_ip updated_vms) \<inter> set usedIPs = {}
              \<and> usedIPs' = usedIPs @ map vm_ip updated_vms)"
proof (intro conjI)
  show "getFreeIP ipRange usedIPs = Inr s \<longleftrightarrow>
          (\<exists>h. 2 \<le> h \<and> h \<le> 254 \<and> s = hostAddr ipRange h \<and> s \<notin> set usedIPs
             \<and> (\<forall>j. 2 \<le> j \<and> j < h \<longrightarrow> hostAddr ipRange j \<in> set usedIPs))"
    using getFreeIP_Inr [OF assms] getFreeIP_first [OF assms] by blast
next
  show "getFreeIP ipRange usedIPs = Inl e \<longleftrightarrow>
          e = Err ''all ips are used''
          \<and> (\<forall>h. 2 \<le> h \<and> h \<le> 254 \<longrightarrow> hostAddr ipRange h \<in> set usedIPs)"
  proof
    assume "getFreeIP ipRange usedIPs = Inl e"
    then show "e = Err ''all ips are used''
        \<and> (\<forall>h. 2 \<le> h \<and> h \<le> 254 \<longrightarrow> hostAddr ipRange h \<in> set usedIPs)"
      by (rule getFreeIP_Inl [OF assms])
  next
    assume a: "e = Err ''all ips are used''
        \<and> (\<forall>h. 2 \<le> h \<and> h \<le> 254 \<longrightarrow> hostAddr ipRange h \<in> set usedIPs)"
    show "getFreeIP ipRange usedIPs = Inl e"
    proof (cases "getFreeIP ipRange usedIPs")
      case (Inl e')
      with getFreeIP_Inl [OF assms Inl] a show ?thesis by simp
    next
      case (Inr s')
      with getFreeIP_Inr [OF assms Inr] a show ?thesis by blast
    qed
  qed
next
  show "getFreeIP ipRange usedIPs = Inr s \<longrightarrow>
          CHR ''/'' \<notin> set s \<and> s \<noteq> hostAddr ipRange 0 \<and> s \<noteq> hostAddr ipRange 1
          \<and> s \<noteq> hostAddr ipRange 255 \<and> getFreeIP ipRange (usedIPs @ [s]) \<noteq> Inr s"
  proof
    assume r: "getFreeIP ipRange usedIPs = Inr s"
    from getFreeIP_Inr [OF assms r]
    obtain h where h: "2 \<le> h" "h \<le> 254" "s = hostAddr ipRange h" by blast
    have "CHR ''/'' \<notin> set s"
      unfolding h(3) hostAddr_def by (rule dotted_no_slash)
    moreover have "s \<noteq> hostAddr ipRange 0"
      using hostAddr_inj [of h 0 ipRange] h by auto
    moreover have "s \<noteq> hostAddr ipRange 1"
      using hostAddr_inj [of h 1 ipRange] h by auto
    moreover have "s \<noteq> hostAddr ipRange 255"
      using hostAddr_inj [of h 255 ipRange] h by auto
    moreover have "getFreeIP ipRange (usedIPs @ [s]) \<noteq> Inr s"
      using getFreeIP_Inr [OF assms, of "usedIPs @ [s]" s] by auto
    ultimately show "CHR ''/'' \<notin> set s \<and> s \<noteq> hostAddr ipRange 0 \<and> s \<noteq> hostAddr ipRange 1
        \<and> s \<noteq> hostAddr ipRange 255 \<and> getFreeIP ipRange (usedIPs @ [s]) \<noteq> Inr s"
      by simp
  qed
next
  show "createVms parseIP networkName ipRange usedIPs vms = Inr (workloads, updated_vms, usedIPs')
          \<longrightarrow> distinct (map vm_ip updated_vms)
            \<and> set (map vm_ip updated_vms) \<inter> set usedIPs = {}
            \<and> usedIPs' = usedIPs @ map vm_ip updated_vms"
    using createVms_ips [OF assms] by blast
qed

theorem getFreeIP_first_free_witness:
  "length (IP (ipNet 10 1 1 0 24)) = 16
   \<and> getFreeIP (ipNet 10 1 1 0 24) [''10.1.1.2''] = Inr ''10.1.1.3''
   \<and> (\<exists>h. 2 \<le> h \<and> h \<le> 254 \<and> ''10.1.1.3'' = hostAddr (ipNet 10 1 1 0 24) h
         \<and> ''10.1.1.3'' \<notin> set [''10.1.1.2'']
         \<and> (\<forall>j. 2 \<le> j \<and> j < h \<longrightarrow> hostAddr (ipNet 10 1 1 0 24) j \<in> set [''10.1.1.2'']))
   \<and> getFreeIP (ipNet 10 1 1 0 24) [''10.1.1.2'', ''10.1.1.3''] \<noteq> Inr ''10.1.1.3''"
proof -
  have l: "length (IP (ipNet 10 1 1 0 24)) = 16"
    by (simp add: ipNet_def IPv4_def v4InV6Prefix_def)
  have r: "getFreeIP (ipNet 10 1 1 0 24) [''10.1.1.2''] = Inr ''10.1.1.3''"
    by code_simp
  from getFreeIP_first_free [OF l, of "[''10.1.1.2'']" "''10.1.1.3''"] l r
  show ?thesis by simp
qed

text \<open>
  The text returned carries no mask: for the subnet \<open>10.1.1.0/24\<close> and no used address
  it is \<open>10.1.1.2\<close>, not \<open>10.1.1.2/32\<close>.
\<close>

theorem getFreeIP_mask_counterexample:
  "getFreeIP (ipNet 10 1 1 0 24) [] = Inr ''10.1.1.2''
   \<and> getFreeIP (ipNet 10 1 1 0 24) [] \<noteq> Inr ''10.1.1.2/32''"
proof -
  have r: "getFreeIP (ipNet 10 1 1 0 24) [] = Inr ''10.1.1.2''"
    by code_simp
  then show ?thesis by simp
qed

section \<open>Properties of topology generation\<close>

lemma dom_nodeIps: "dom nodeIps = {1, 2, 3, 4}"
  by (auto simp: nodeIps_def split: if_splits)

lemma getNodeEndpoint_outside:
  "nodeId \<notin> {1, 2, 3, 4} \<Longrightarrow> getNodeEndpoint nodeId wgPort = ''[]:'' @ fmt_d (sint wgPort)"
  by (simp add: getNodeEndpoint_def nodeIps_def)

lemma peerFor_fields:
  "peerFor c nc neigh = Inr p \<Longrightarrow>
     peer_Subnet p = ipOf nc neigh \<and>
     peer_WGPublicKey p = KeyString c (PublicKey c (keyOf nc neigh)) \<and>
     peer_Endpoint p = getNodeEndpoint neigh (portOf nc neigh)"
  by (auto simp: peerFor_def andThen_def Let_def split: sum.splits if_splits)

text \<open>
  C9. The lookup \<open>nodeIps\<close> is defined for the node ids 1, 2, 3 and 4 only. For any other
  node id \<open>getNodeEndpoint\<close> gives, without any error, the text \<open>[]:<port>\<close> with an empty
  address, and this is the endpoint of the peer entry that topology generation builds
  for such a node.
\<close>

theorem getNodeEndpoint_unknown_node:
  "dom nodeIps = {1, 2, 3, 4}
   \<and> (nodeId \<notin> {1, 2, 3, 4} \<longrightarrow> getNodeEndpoint nodeId wgPort = ''[]:'' @ fmt_d (sint wgPort))
   \<and> (neigh \<notin> {1, 2, 3, 4} \<longrightarrow> peerFor c nc neigh = Inr p \<longrightarrow>
        peer_Endpoint p = ''[]:'' @ fmt_d (sint (portOf nc neigh)))"
  using dom_nodeIps getNodeEndpoint_outside peerFor_fields [of c nc neigh p] by simp

theorem getNodeEndpoint_unknown_node_witness:
  "(5 :: go_int) \<notin> {1, 2, 3, 4}
   \<and> getNodeEndpoint 5 3005 = ''[]:3005''
   \<and> peerFor exampleCollaborators exampleConfig 5 = Inr
        \<lparr>peer_Subnet = ipNet 10 1 4 0 24, peer_WGPublicKey = ''3205'', peer_Endpoint = ''[]:3005'',
         peer_AllowedIPs = [ipNet 10 1 4 0 24, ipNet 100 64 1 4 32]\<rparr>"
proof -
  have n: "(5 :: go_int) \<notin> {1, 2, 3, 4}" by simp
  have p: "peerFor exampleCollaborators exampleConfig 5 = Inr
        \<lparr>peer_Subnet = ipNet 10 1 4 0 24, peer_WGPublicKey = ''3205'', peer_Endpoint = ''[]:3005'',
         peer_AllowedIPs = [ipNet 10 1 4 0 24, ipNet 100 64 1 4 32]\<rparr>"
    by code_simp
  have f: "fmt_d (sint (3005 :: go_int)) = ''3005''"
    by code_simp
  from getNodeEndpoint_unknown_node [of 5 3005 5 exampleCollaborators exampleConfig] n f
  have "getNodeEndpoint 5 3005 = ''[]:3005''" by simp
  with n p show ?thesis by simp
qed

section \<open>Properties of the completion-wait loop\<close>

lemma scan_Inr:
  "scanWorkloads deploymentID idx wls done = Inr b \<longleftrightarrow>
     (\<forall>wl \<in> set wls. State (wl_Result wl) = [] \<or> State (wl_Result wl) = StateOk)
     \<and> b = (done \<and> (\<forall>wl \<in> set wls. State (wl_Result wl) \<noteq> []))"
  by (induction wls arbitrary: idx "done") (auto simp: StateOk_def)

lemma scan_Inl:
  "scanWorkloads deploymentID idx wls done = Inl msg \<longleftrightarrow>
     (\<exists>i < length wls.
        State (wl_Result (wls ! i)) \<noteq> [] \<and> State (wl_Result (wls ! i)) \<noteq> StateOk
        \<and> (\<forall>j < i. State (wl_Result (wls ! j)) = [] \<or> State (wl_Result (wls ! j)) = StateOk)
        \<and> msg = workloadFailed (idx + i) deploymentID (Error (wl_Result (wls ! i))))"
proof (induction wls arbitrary: idx "done")
  case Nil
  then show ?case by simp
next
  case (Cons wl wls)
  let ?bad = "\<lambda>x. State (wl_Result x) \<noteq> [] \<and> State (wl_Result x) \<noteq> StateOk"
  let ?R = "\<lambda>ws k i. i < length ws \<and> ?bad (ws ! i)
        \<and> (\<forall>j < i. \<not> ?bad (ws ! j))
        \<and> msg = workloadFailed (k + i) deploymentID (Error (wl_Result (ws ! i)))"
  show ?case
  proof (cases "?bad wl")
    case True
    have "(\<exists>i. ?R (wl # wls) idx i) \<longleftrightarrow> msg = workloadFailed idx deploymentID (Error (wl_Result wl))"
    proof
      assume "\<exists>i. ?R (wl # wls) idx i"
      then obtain i where i: "?R (wl # wls) idx i" ..
      have "i = 0"
      proof (rule ccontr)
        assume "i \<noteq> 0"
        then have "0 < i" by simp
        with i have "\<not> ?bad ((wl # wls) ! 0)" by blast
        with True show False by simp
      qed
      with i show "msg = workloadFailed idx deploymentID (Error (wl_Result wl))" by simp
    next
      assume "msg = workloadFailed idx deploymentID (Error (wl_Result wl))"
      with True have "?R (wl # wls) idx 0" by simp
      then show "\<exists>i. ?R (wl # wls) idx i" ..
    qed
    with True show ?thesis by auto
  next
    case False
    have "(\<exists>i. ?R (wl # wls) idx i) \<longleftrightarrow> (\<exists>i. ?R wls (idx + 1) i)"
    proof
      assume "\<exists>i. ?R (wl # wls) idx i"
      then obtain i where i: "?R (wl # wls) idx i" ..
      with False obtain i' where i': "i = Suc i'" by (cases i) auto
      with i have "?R wls (idx + 1) i'" by auto
      then show "\<exists>i. ?R wls (idx + 1) i" ..
    next
      assume "\<exists>i. ?R wls (idx + 1) i"
      then obtain i where i: "?R wls (idx + 1) i" ..
      have "\<forall>j < Suc i. \<not> ?bad ((wl # wls) ! j)"
      proof (intro allI impI)
        fix j assume "j < Suc i"
        with i False show "\<not> ?bad ((wl # wls) ! j)" by (cases j) auto
      qed
      with i have "?R (wl # wls) idx (Suc i)" by simp
      then show "\<exists>i. ?R (wl # wls) idx i" ..
    qed
    moreover have "scanWorkloads deploymentID idx (wl # wls) done = Inl msg \<longleftrightarrow>
        (\<exists>i. ?R wls (idx + 1) i)"
    proof (cases "State (wl_Result wl) = []")
      case True
      then show ?thesis using Cons.IH [of "idx + 1" False] by auto
    next
      case ne: False
      with False have "State (wl_Result wl) = StateOk" by simp
      with ne show ?thesis using Cons.IH [of "idx + 1" "done"] by auto
    qed
    ultimately show ?thesis by auto
  qed
qed

lemma waitLoop_pending:
  "pending w deploymentID k \<Longrightarrow>
     waitLoop w deploymentID k log =
     waitLoop w deploymentID (Suc k) (log @ [Since, DeploymentGet deploymentID])"
  by (subst waitLoop.simps) (auto simp: pending_def split: sum.splits)

lemma waitLoop_timeout:
  "\<not> since w k < 4 * Minute \<Longrightarrow>
     waitLoop w deploymentID k log = Some (log @ [Since], Some (timedOut deploymentID))"
  by (subst waitLoop.simps) simp

lemma waitLoop_fetch_error:
  "since w k < 4 * Minute \<Longrightarrow> fetched w k = Inl err \<Longrightarrow>
     waitLoop w deploymentID k log = Some (log @ [Since, DeploymentGet deploymentID], Some err)"
  by (subst waitLoop.simps) simp

lemma waitLoop_failed:
  "since w k < 4 * Minute \<Longrightarrow> fetched w k = Inr dl \<Longrightarrow>
   scanWorkloads deploymentID 0 (dl_Workloads dl) True = Inl msg \<Longrightarrow>
     waitLoop w deploymentID k log = Some (log @ [Since, DeploymentGet deploymentID], Some msg)"
  by (subst waitLoop.simps) simp

lemma waitLoop_done:
  "since w k < 4 * Minute \<Longrightarrow> fetched w k = Inr dl \<Longrightarrow>
   scanWorkloads deploymentID 0 (dl_Workloads dl) True = Inr True \<Longrightarrow>
     waitLoop w deploymentID k log = Some (log @ [Since, DeploymentGet deploymentID], None)"
  by (subst waitLoop.simps) simp

lemma waitLoop_rounds:
  "(\<forall>j. k \<le> j \<and> j < k + m \<longrightarrow> pending w deploymentID j) \<Longrightarrow>
     waitLoop w deploymentID k log =
     waitLoop w deploymentID (k + m)
       (log @ concat (replicate m [Since, DeploymentGet deploymentID]))"
proof (induction m arbitrary: k log)
  case 0
  then show ?case by simp
next
  case (Suc m)
  from Suc.prems have p: "pending w deploymentID k" by simp
  from Suc.prems have "\<forall>j. Suc k \<le> j \<and> j < Suc k + m \<longrightarrow> pending w deploymentID j" by simp
  from Suc.IH [OF this] waitLoop_pending [OF p] show ?case by simp
qed

lemma waitLoop_stops:
  assumes a: "waitLoop w deploymentID k log = Some r"
  shows "\<exists>m. (\<forall>j. k \<le> j \<and> j < k + m \<longrightarrow> pending w deploymentID j)
           \<and> \<not> pending w deploymentID (k + m)"
proof (rule waitLoop.raw_induct
    [where P = "\<lambda>w deploymentID k log r.
       \<exists>m. (\<forall>j. k \<le> j \<and> j < k + m \<longrightarrow> pending w deploymentID j)
           \<and> \<not> pending w deploymentID (k + m)", OF _ a])
  fix f :: "world \<Rightarrow> uint64 \<Rightarrow> nat \<Rightarrow> call list \<Rightarrow> (call list \<times> string option) option"
  fix w deploymentID k log r
  assume IH: "\<And>w deploymentID k log r. f w deploymentID k log = Some r \<Longrightarrow>
      \<exists>m. (\<forall>j. k \<le> j \<and> j < k + m \<longrightarrow> pending w deploymentID j)
           \<and> \<not> pending w deploymentID (k + m)"
  assume body: "(if since w k < 4 * Minute then
        (case fetched w k of
           Inl err \<Rightarrow> Some (log @ [Since, DeploymentGet deploymentID], Some err)
         | Inr dl \<Rightarrow>
             (case scanWorkloads deploymentID 0 (dl_Workloads dl) True of
                Inl err \<Rightarrow> Some (log @ [Since, DeploymentGet deploymentID], Some err)
              | Inr done \<Rightarrow>
                  if done then Some (log @ [Since, DeploymentGet deploymentID], None)
                  else f w deploymentID (Suc k) (log @ [Since, DeploymentGet deploymentID])))
      else Some (log @ [Since], Some (timedOut deploymentID))) = Some r"
  show "\<exists>m. (\<forall>j. k \<le> j \<and> j < k + m \<longrightarrow> pending w deploymentID j)
           \<and> \<not> pending w deploymentID (k + m)"
  proof (cases "pending w deploymentID k")
    case False
    then have "(\<forall>j. k \<le> j \<and> j < k + 0 \<longrightarrow> pending w deploymentID j)
           \<and> \<not> pending w deploymentID (k + 0)" by auto
    then show ?thesis ..
  next
    case True
    with body have "f w deploymentID (Suc k) (log @ [Since, DeploymentGet deploymentID]) = Some r"
      by (auto simp: pending_def split: sum.splits)
    from IH [OF this] obtain m where
      m: "\<forall>j. Suc k \<le> j \<and> j < Suc k + m \<longrightarrow> pending w deploymentID j"
      "\<not> pending w deploymentID (Suc k + m)" by blast
    have "\<forall>j. k \<le> j \<and> j < k + Suc m \<longrightarrow> pending w deploymentID j"
    proof (intro allI impI)
      fix j assume j: "k \<le> j \<and> j < k + Suc m"
      show "pending w deploymentID j"
      proof (cases "j = k")
        case True with \<open>pending w deploymentID k\<close> show ?thesis by simp
      next
        case False with j m(1) show ?thesis by simp
      qed
    qed
    with m(2) have "(\<forall>j. k \<le> j \<and> j < k + Suc m \<longrightarrow> pending w deploymentID j)
           \<and> \<not> pending w deploymentID (k + Suc m)" by simp
    then show ?thesis ..
  qed
qed

lemma not_pending_cases:
  assumes "\<not> pending w deploymentID k"
  obtains (timeout) "\<not> since w k < 4 * Minute"
  | (fetch_error) err where "since w k < 4 * Minute" "fetched w k = Inl err"
  | (failed) dl msg where "since w k < 4 * Minute" "fetched w k = Inr dl"
      "scanWorkloads deploymentID 0 (dl_Workloads dl) True = Inl msg"
  | (finished) dl where "since w k < 4 * Minute" "fetched w k = Inr dl"
      "scanWorkloads deploymentID 0 (dl_Workloads dl) True = Inr True"
proof (cases "since w k < 4 * Minute")
  case False
  then show ?thesis by (rule timeout)
next
  case True
  show ?thesis
  proof (cases "fetched w k")
    case (Inl err)
    with True show ?thesis by (rule fetch_error)
  next
    case (Inr dl)
    show ?thesis
    proof (cases "scanWorkloads deploymentID 0 (dl_Workloads dl) True")
      case (Inl msg)
      with True Inr show ?thesis by (rule failed)
    next
      case b: (Inr b)
      with assms True Inr have "b" by (auto simp: pending_def)
      with True Inr b show ?thesis by (auto intro: finished)
    qed
  qed
qed

lemma waitLoop_total:
  assumes "\<not> pending w deploymentID k"
  shows "\<exists>r. waitLoop w deploymentID k log = Some r"
  using assms
  by (rule not_pending_cases)
     (auto simp: waitLoop_timeout waitLoop_fetch_error waitLoop_failed waitLoop_done)


lemma rounds_Suc: "concat (replicate (Suc n) xs) = concat (replicate n xs) @ xs"
  by (induction n) simp_all

lemma waitDeployment_last_round:
  assumes "waitDeployment w deploymentID = Some r"
  shows "\<exists>m. (\<forall>j < m. pending w deploymentID j) \<and> \<not> pending w deploymentID m
           \<and> waitLoop w deploymentID m (concat (replicate m [Since, DeploymentGet deploymentID]))
               = Some r"
proof -
  from assms have a: "waitLoop w deploymentID 0 [] = Some r"
    by (simp add: waitDeployment_def)
  from waitLoop_stops [OF a] obtain m where
    m: "\<forall>j < m. pending w deploymentID j" "\<not> pending w deploymentID m" by auto
  from m(1) have "\<forall>j. 0 \<le> j \<and> j < 0 + m \<longrightarrow> pending w deploymentID j" by simp
  from waitLoop_rounds [OF this, of "[]"] a
  have "waitLoop w deploymentID m (concat (replicate m [Since, DeploymentGet deploymentID])) = Some r"
    by simp
  with m show ?thesis by blast
qed

lemma waitDeployment_after_pending:
  assumes "\<forall>j < n. pending w deploymentID j"
  shows "waitDeployment w deploymentID =
     waitLoop w deploymentID n (concat (replicate n [Since, DeploymentGet deploymentID]))"
proof -
  from assms have "\<forall>j. 0 \<le> j \<and> j < 0 + n \<longrightarrow> pending w deploymentID j" by simp
  from waitLoop_rounds [OF this, of "[]"] show ?thesis
    by (simp add: waitDeployment_def)
qed

lemma timedOut_distinct: "timedOut deploymentID \<noteq> workloadFailed idx deploymentID' err"
  by (simp add: timedOut_def workloadFailed_def)


lemma split_digits:
  "set ds \<subseteq> set ''0123456789'' \<Longrightarrow> set ds' \<subseteq> set ''0123456789'' \<Longrightarrow>
   ds @ CHR '' '' # r = ds' @ CHR '' '' # r' \<Longrightarrow> ds = ds' \<and> r = r'"
proof (induction ds arbitrary: ds')
  case Nil
  then show ?case by (cases ds') auto
next
  case (Cons a ds)
  show ?case
  proof (cases ds')
    case Nil
    with Cons.prems show ?thesis by auto
  next
    case (Cons b bs)
    with Cons.prems have "a = b" "ds @ CHR '' '' # r = bs @ CHR '' '' # r'"
      "set ds \<subseteq> set ''0123456789''" "set bs \<subseteq> set ''0123456789''"
      by simp_all
    with Cons.IH [of bs] Cons show ?thesis by simp
  qed
qed

lemma fmt_d_nat: "fmt_d (int n) = digits n"
  by (simp add: fmt_d_def)

lemma fmt_d_uint: "fmt_d (uint (d :: uint64)) = digits (unat d)"
  by (simp add: fmt_d_def)

lemma workloadFailed_text:
  "workloadFailed idx deploymentID err =
     ''workload '' @ digits idx @ '' failed within deployment '' @ digits (unat deploymentID)
       @ '' with error '' @ err"
  by (simp add: workloadFailed_def fmt_d_nat fmt_d_uint)

lemma workloadFailed_inj:
  assumes "workloadFailed i d e = workloadFailed i' d' e'"
  shows "i = i' \<and> d = d' \<and> e = e'"
proof -
  from assms have 1: "digits i @ CHR '' '' # (''failed within deployment '' @ digits (unat d)
        @ '' with error '' @ e)
      = digits i' @ CHR '' '' # (''failed within deployment '' @ digits (unat d')
        @ '' with error '' @ e')"
    by (simp add: workloadFailed_text)
  from split_digits [OF digits_chars digits_chars 1]
  have i: "digits i = digits i'"
    and 2: "digits (unat d) @ CHR '' '' # (''with error '' @ e)
      = digits (unat d') @ CHR '' '' # (''with error '' @ e')"
    by simp_all
  from split_digits [OF digits_chars digits_chars 2]
  have d: "digits (unat d) = digits (unat d')" and e: "e = e'"
    by simp_all
  from i have "i = i'" by (rule digits_inj)
  moreover from d have "unat d = unat d'" by (rule digits_inj)
  then have "d = d'" by (simp add: word_eq_iff_unsigned [where ?'a = nat])
  ultimately show ?thesis using e by simp
qed

lemma timedOut_text:
  "timedOut deploymentID = ''waiting for deployment '' @ digits (unat deploymentID) @ '' timedout''"
  by (simp add: timedOut_def fmt_d_uint)

lemma waitDeployment_success:
  assumes "waitDeployment w deploymentID = Some (log, None)"
  shows "\<exists>n dl. (\<forall>j < n. pending w deploymentID j) \<and> since w n < 4 * Minute
           \<and> fetched w n = Inr dl
           \<and> (\<forall>wl \<in> set (dl_Workloads dl).
                 State (wl_Result wl) \<noteq> [] \<and> State (wl_Result wl) = StateOk)
           \<and> log = concat (replicate (Suc n) [Since, DeploymentGet deploymentID])"
proof -
  from waitDeployment_last_round [OF assms] obtain m where
    m: "\<forall>j < m. pending w deploymentID j" "\<not> pending w deploymentID m"
    and r: "waitLoop w deploymentID m (concat (replicate m [Since, DeploymentGet deploymentID]))
              = Some (log, None)"
    by blast
  from m(2) show ?thesis
  proof (cases rule: not_pending_cases)
    case timeout
    from waitLoop_timeout [OF this] r show ?thesis by simp
  next
    case (fetch_error err)
    from waitLoop_fetch_error [OF this] r show ?thesis by simp
  next
    case (failed dl msg)
    from waitLoop_failed [OF this] r show ?thesis by simp
  next
    case (finished dl)
    from waitLoop_done [OF this] r
    have l: "log = concat (replicate (Suc m) [Since, DeploymentGet deploymentID])"
      by (simp add: rounds_Suc del: replicate_Suc)
    from finished(3) have "\<forall>wl \<in> set (dl_Workloads dl).
        State (wl_Result wl) \<noteq> [] \<and> State (wl_Result wl) = StateOk"
      by (auto simp: scan_Inr)
    with m(1) finished(1,2) l show ?thesis by blast
  qed
qed

lemma waitDeployment_failure:
  assumes p: "\<forall>j < n. pending w deploymentID j"
    and s: "since w n < 4 * Minute" and f: "fetched w n = Inr dl"
    and i: "i < length (dl_Workloads dl)"
      "State (wl_Result (dl_Workloads dl ! i)) \<noteq> []"
      "State (wl_Result (dl_Workloads dl ! i)) \<noteq> StateOk"
  shows "\<exists>i0 \<le> i.
           State (wl_Result (dl_Workloads dl ! i0)) \<noteq> []
           \<and> State (wl_Result (dl_Workloads dl ! i0)) \<noteq> StateOk
           \<and> (\<forall>j < i0. State (wl_Result (dl_Workloads dl ! j)) = []
                        \<or> State (wl_Result (dl_Workloads dl ! j)) = StateOk)
           \<and> waitDeployment w deploymentID =
               Some (concat (replicate (Suc n) [Since, DeploymentGet deploymentID]),
                     Some (workloadFailed i0 deploymentID
                             (Error (wl_Result (dl_Workloads dl ! i0)))))"
proof -
  let ?wls = "dl_Workloads dl"
  from i have "?wls ! i \<in> set ?wls" by simp
  with i(2,3) have "\<And>b. scanWorkloads deploymentID 0 ?wls True \<noteq> Inr b"
    by (auto simp: scan_Inr)
  then obtain msg where msg: "scanWorkloads deploymentID 0 ?wls True = Inl msg"
    by (cases "scanWorkloads deploymentID 0 ?wls True") auto
  then obtain i0 where i0: "i0 < length ?wls"
    "State (wl_Result (?wls ! i0)) \<noteq> []" "State (wl_Result (?wls ! i0)) \<noteq> StateOk"
    "\<forall>j < i0. State (wl_Result (?wls ! j)) = [] \<or> State (wl_Result (?wls ! j)) = StateOk"
    "msg = workloadFailed i0 deploymentID (Error (wl_Result (?wls ! i0)))"
    by (auto simp: scan_Inl)
  have "\<not> i < i0" using i0(4) i(2,3) by blast
  then have le: "i0 \<le> i" by simp
  from waitLoop_failed [OF s f msg] waitDeployment_after_pending [OF p]
  have "waitDeployment w deploymentID =
      Some (concat (replicate (Suc n) [Since, DeploymentGet deploymentID]), Some msg)"
    by (simp add: rounds_Suc del: replicate_Suc)
  with le i0 show ?thesis by blast
qed

lemma waitDeployment_timeout:
  assumes p: "\<forall>j < n. pending w deploymentID j" and s: "\<not> since w n < 4 * Minute"
  shows "waitDeployment w deploymentID =
     Some (concat (replicate n [Since, DeploymentGet deploymentID]) @ [Since],
           Some (timedOut deploymentID))"
  using waitLoop_timeout [OF s] waitDeployment_after_pending [OF p] by simp

lemma waitDeployment_returns:
  assumes "\<not> since w n < 4 * Minute"
  shows "\<exists>r. waitDeployment w deploymentID = Some r"
proof -
  from assms have "\<not> pending w deploymentID n" by (simp add: pending_def)
  then have "\<exists>m. \<not> pending w deploymentID m" ..
  then obtain m where m: "\<not> pending w deploymentID m" "\<forall>j < m. pending w deploymentID j"
    using exists_least_iff [of "\<lambda>m. \<not> pending w deploymentID m"] by auto
  from waitLoop_total [OF m(1)] waitDeployment_after_pending [OF m(2)]
  show ?thesis by simp
qed

lemma waitDeployment_log:
  assumes "waitDeployment w deploymentID = Some (log, r)"
  shows "\<exists>n. log = concat (replicate n [Since, DeploymentGet deploymentID])
            \<or> log = concat (replicate n [Since, DeploymentGet deploymentID]) @ [Since]"
proof -
  from waitDeployment_last_round [OF assms] obtain m where
    m: "\<not> pending w deploymentID m"
    and r: "waitLoop w deploymentID m (concat (replicate m [Since, DeploymentGet deploymentID]))
              = Some (log, r)"
    by blast
  from m show ?thesis
  proof (cases rule: not_pending_cases)
    case timeout
    from waitLoop_timeout [OF this] r show ?thesis by auto
  next
    case (fetch_error err)
    from waitLoop_fetch_error [OF this] r
    have "log = concat (replicate (Suc m) [Since, DeploymentGet deploymentID])"
      by (simp add: rounds_Suc del: replicate_Suc)
    then show ?thesis by blast
  next
    case (failed dl msg)
    from waitLoop_failed [OF this] r
    have "log = concat (replicate (Suc m) [Since, DeploymentGet deploymentID])"
      by (simp add: rounds_Suc del: replicate_Suc)
    then show ?thesis by blast
  next
    case (finished dl)
    from waitLoop_done [OF this] r
    have "log = concat (replicate (Suc m) [Since, DeploymentGet deploymentID])"
      by (simp add: rounds_Suc del: replicate_Suc)
    then show ?thesis by blast
  qed
qed

lemma rounds_no_Sleep: "Sleep d \<notin> set (concat (replicate n [Since, DeploymentGet deploymentID]))"
  by (induction n) simp_all

text \<open>
  C1. \<open>waitDeployment\<close> returns success only on a fetch in which every workload has a
  non-empty state and every state is \<open>StateOk\<close>. If, at a fetch reached with the budget
  not used up, some workload has a non-empty state other than \<open>StateOk\<close>, it returns on
  that very fetch the error that carries the index of the first such workload, the
  deployment id and the remote error text. If the budget of four minutes is used up
  after rounds that all left workloads pending, it returns the timeout error, which is
  different from every workload error; and it always returns once the budget is used up.
  The workload error is the text \<open>workload <index> failed within deployment <id> with
  error <remote text>\<close>, with the index and the id in decimal, and the index, the id and
  the remote text can all be read back from it: two such texts are equal only when the
  three are. The timeout error is the text \<open>waiting for deployment <id> timedout\<close>.
\<close>

theorem waitDeployment_outcomes:
  "(waitDeployment w deploymentID = Some (log, None) \<longrightarrow>
      (\<exists>n dl. (\<forall>j < n. pending w deploymentID j) \<and> since w n < 4 * Minute
         \<and> fetched w n = Inr dl
         \<and> (\<forall>wl \<in> set (dl_Workloads dl).
               State (wl_Result wl) \<noteq> [] \<and> State (wl_Result wl) = StateOk)
         \<and> log = concat (replicate (Suc n) [Since, DeploymentGet deploymentID])))
   \<and> ((\<forall>j < n. pending w deploymentID j) \<and> since w n < 4 * Minute \<and> fetched w n = Inr dl
        \<and> i < length (dl_Workloads dl)
        \<and> State (wl_Result (dl_Workloads dl ! i)) \<noteq> []
        \<and> State (wl_Result (dl_Workloads dl ! i)) \<noteq> StateOk \<longrightarrow>
      (\<exists>i0 \<le> i.
         State (wl_Result (dl_Workloads dl ! i0)) \<noteq> []
         \<and> State (wl_Result (dl_Workloads dl ! i0)) \<noteq> StateOk
         \<and> (\<forall>j < i0. State (wl_Result (dl_Workloads dl ! j)) = []
                      \<or> State (wl_Result (dl_Workloads dl ! j)) = StateOk)
         \<and> waitDeployment w deploymentID =
             Some (concat (replicate (Suc n) [Since, DeploymentGet deploymentID]),
                   Some (workloadFailed i0 deploymentID
                           (Error (wl_Result (dl_Workloads dl ! i0)))))))
   \<and> ((\<forall>j < n. pending w deploymentID j) \<and> \<not> since w n < 4 * Minute \<longrightarrow>
        waitDeployment w deploymentID =
          Some (concat (replicate n [Since, DeploymentGet deploymentID]) @ [Since],
                Some (timedOut deploymentID)))
   \<and> timedOut deploymentID \<noteq> workloadFailed idx deploymentID' err
   \<and> (\<not> since w n < 4 * Minute \<longrightarrow> (\<exists>r. waitDeployment w deploymentID = Some r))
   \<and> workloadFailed idx deploymentID' err =
        ''workload '' @ digits idx @ '' failed within deployment '' @ digits (unat deploymentID')
          @ '' with error '' @ err
   \<and> (workloadFailed idx deploymentID' err = workloadFailed idx' deploymentID'' err' \<longrightarrow>
        idx = idx' \<and> deploymentID' = deploymentID'' \<and> err = err')
   \<and> (digits idx = digits idx' \<longrightarrow> idx = idx')
   \<and> timedOut deploymentID =
        ''waiting for deployment '' @ digits (unat deploymentID) @ '' timedout''"
proof (intro conjI impI)
  assume "waitDeployment w deploymentID = Some (log, None)"
  then show "\<exists>n dl. (\<forall>j < n. pending w deploymentID j) \<and> since w n < 4 * Minute
         \<and> fetched w n = Inr dl
         \<and> (\<forall>wl \<in> set (dl_Workloads dl).
               State (wl_Result wl) \<noteq> [] \<and> State (wl_Result wl) = StateOk)
         \<and> log = concat (replicate (Suc n) [Since, DeploymentGet deploymentID])"
    by (rule waitDeployment_success)
next
  assume a: "(\<forall>j < n. pending w deploymentID j) \<and> since w n < 4 * Minute \<and> fetched w n = Inr dl
        \<and> i < length (dl_Workloads dl)
        \<and> State (wl_Result (dl_Workloads dl ! i)) \<noteq> []
        \<and> State (wl_Result (dl_Workloads dl ! i)) \<noteq> StateOk"
  show "\<exists>i0 \<le> i.
         State (wl_Result (dl_Workloads dl ! i0)) \<noteq> []
         \<and> State (wl_Result (dl_Workloads dl ! i0)) \<noteq> StateOk
         \<and> (\<forall>j < i0. State (wl_Result (dl_Workloads dl ! j)) = []
                      \<or> State (wl_Result (dl_Workloads dl ! j)) = StateOk)
         \<and> waitDeployment w deploymentID =
             Some (concat (replicate (Suc n) [Since, DeploymentGet deploymentID]),
                   Some (workloadFailed i0 deploymentID
                           (Error (wl_Result (dl_Workloads dl ! i0)))))"
    by (rule waitDeployment_failure) (use a in simp_all)
next
  assume "(\<forall>j < n. pending w deploymentID j) \<and> \<not> since w n < 4 * Minute"
  then show "waitDeployment w deploymentID =
          Some (concat (replicate n [Since, DeploymentGet deploymentID]) @ [Since],
                Some (timedOut deploymentID))"
    by (intro waitDeployment_timeout) simp_all
next
  show "timedOut deploymentID \<noteq> workloadFailed idx deploymentID' err"
    by (rule timedOut_distinct)
next
  assume "\<not> since w n < 4 * Minute"
  then show "\<exists>r. waitDeployment w deploymentID = Some r"
    by (rule waitDeployment_returns)
next
  show "workloadFailed idx deploymentID' err =
        ''workload '' @ digits idx @ '' failed within deployment '' @ digits (unat deploymentID')
          @ '' with error '' @ err"
    by (rule workloadFailed_text)
next
  assume "workloadFailed idx deploymentID' err = workloadFailed idx' deploymentID'' err'"
  then have "idx = idx' \<and> deploymentID' = deploymentID'' \<and> err = err'"
    by (rule workloadFailed_inj)
  then show "idx = idx'" "deploymentID' = deploymentID''" "err = err'" by simp_all
next
  assume "digits idx = digits idx'"
  then show "idx = idx'" by (rule digits_inj)
next
  show "timedOut deploymentID =
        ''waiting for deployment '' @ digits (unat deploymentID) @ '' timedout''"
    by (rule timedOut_text)
qed

theorem waitDeployment_outcomes_witness:
  "pending worldFailed 7 0 \<and> since worldFailed 1 < 4 * Minute
   \<and> waitDeployment worldFailed 7 =
       Some ([Since, DeploymentGet 7, Since, DeploymentGet 7],
             Some ''workload 1 failed within deployment 7 with error boom'')
   \<and> pending worldPending 7 0 \<and> pending worldPending 7 1 \<and> \<not> since worldPending 2 < 4 * Minute
   \<and> waitDeployment worldPending 7 =
       Some ([Since, DeploymentGet 7, Since, DeploymentGet 7, Since],
             Some ''waiting for deployment 7 timedout'')
   \<and> workloadFailed 1 7 ''boom'' \<noteq> workloadFailed 0 7 ''boom''
   \<and> workloadFailed 1 7 ''boom'' \<noteq> workloadFailed 1 8 ''boom''
   \<and> workloadFailed 1 7 ''boom'' \<noteq> workloadFailed 1 7 ''bang''"
proof -
  let ?dl = "newDeployment 14 0 (map resultOf [(''ok'', []), (''error'', ''boom'')])"
  from waitDeployment_outcomes [where idx = 1 and deploymentID' = 7 and err = "''boom''"
      and idx' = 0 and deploymentID'' = 7 and err' = "''boom''",
      THEN conjunct2, THEN conjunct2, THEN conjunct2, THEN conjunct2, THEN conjunct2,
      THEN conjunct2, THEN conjunct1]
  have d1: "workloadFailed 1 7 ''boom'' \<noteq> workloadFailed 0 7 ''boom''" by auto
  from waitDeployment_outcomes [where idx = 1 and deploymentID' = 7 and err = "''boom''"
      and idx' = 1 and deploymentID'' = 8 and err' = "''boom''",
      THEN conjunct2, THEN conjunct2, THEN conjunct2, THEN conjunct2, THEN conjunct2,
      THEN conjunct2, THEN conjunct1]
  have d2: "workloadFailed 1 7 ''boom'' \<noteq> workloadFailed 1 8 ''boom''" by auto
  from waitDeployment_outcomes [where idx = 1 and deploymentID' = 7 and err = "''boom''"
      and idx' = 1 and deploymentID'' = 7 and err' = "''bang''",
      THEN conjunct2, THEN conjunct2, THEN conjunct2, THEN conjunct2, THEN conjunct2,
      THEN conjunct2, THEN conjunct1]
  have d3: "workloadFailed 1 7 ''boom'' \<noteq> workloadFailed 1 7 ''bang''" by auto
  have f0: "pending worldFailed 7 0" by code_simp
  have f1: "since worldFailed 1 < 4 * Minute" by code_simp
  have f2: "fetched worldFailed 1 = Inr ?dl" by code_simp
  have f3: "State (wl_Result (dl_Workloads ?dl ! 1)) = ''error''"
    by code_simp
  have f4: "State (wl_Result (dl_Workloads ?dl ! 0)) = StateOk"
    by code_simp
  have f5: "length (dl_Workloads ?dl) = 2" by code_simp
  have f6: "workloadFailed 1 7 (Error (wl_Result (dl_Workloads ?dl ! 1)))
      = ''workload 1 failed within deployment 7 with error boom''"
    by code_simp
  have hyp: "(\<forall>j < 1. pending worldFailed 7 j) \<and> since worldFailed 1 < 4 * Minute
        \<and> fetched worldFailed 1 = Inr ?dl
        \<and> 1 < length (dl_Workloads ?dl)
        \<and> State (wl_Result (dl_Workloads ?dl ! 1)) \<noteq> []
        \<and> State (wl_Result (dl_Workloads ?dl ! 1)) \<noteq> StateOk"
    using f0 f1 f2 f3 f5 by (simp add: StateOk_def)
  note b = waitDeployment_outcomes [where w = worldFailed and deploymentID = 7 and n = 1
      and dl = "?dl" and i = 1, THEN conjunct2, THEN conjunct1, THEN mp, OF hyp]
  from b obtain i0 where i0: "i0 \<le> 1" "State (wl_Result (dl_Workloads ?dl ! i0)) \<noteq> StateOk"
    "waitDeployment worldFailed 7 =
       Some (concat (replicate (Suc 1) [Since, DeploymentGet 7]),
             Some (workloadFailed i0 7 (Error (wl_Result (dl_Workloads ?dl ! i0)))))"
    by (elim exE conjE)
  from i0(1,2) f4 have "i0 = 1" by (cases i0) auto
  have r1: "concat (replicate (Suc 1) [Since, DeploymentGet 7])
      = [Since, DeploymentGet 7, Since, DeploymentGet 7]"
    by simp
  from i0(3) have failed: "waitDeployment worldFailed 7 =
       Some ([Since, DeploymentGet 7, Since, DeploymentGet 7],
             Some ''workload 1 failed within deployment 7 with error boom'')"
    unfolding \<open>i0 = 1\<close> f6 r1 .
  have p0: "pending worldPending 7 0" by code_simp
  have p1: "pending worldPending 7 1" by code_simp
  have p2: "\<not> since worldPending 2 < 4 * Minute" by code_simp
  have t: "timedOut 7 = ''waiting for deployment 7 timedout''" by code_simp
  have p: "(\<forall>j < 2. pending worldPending 7 j) \<and> \<not> since worldPending 2 < 4 * Minute"
    using p0 p1 p2 by (simp add: less_Suc_eq numeral_2_eq_2)
  note c = waitDeployment_outcomes [where w = worldPending and deploymentID = 7 and n = 2,
      THEN conjunct2, THEN conjunct2, THEN conjunct1, THEN mp, OF p]
  have r2: "concat (replicate 2 [Since, DeploymentGet 7]) @ [Since]
      = [Since, DeploymentGet 7, Since, DeploymentGet 7, Since]"
    by (simp add: numeral_2_eq_2)
  from c t r2 have timeout: "waitDeployment worldPending 7 =
       Some ([Since, DeploymentGet 7, Since, DeploymentGet 7, Since],
             Some ''waiting for deployment 7 timedout'')"
    by (simp only:)
  from f0 f1 failed p0 p1 p2 timeout d1 d2 d3 show ?thesis by (intro conjI)
qed

text \<open>
  C8 (as amended). The loop has no polling delay: the calls of a run that returns are
  rounds of one reading of the clock followed at once by one fetch, with at most a last
  reading of the clock after them, and \<open>time.Sleep\<close> is never among them. So between two
  consecutive fetches the loop only evaluates the budget again.
\<close>

theorem waitDeployment_no_delay:
  "waitDeployment w deploymentID = Some (log, r) \<longrightarrow>
     (\<exists>n. log = concat (replicate n [Since, DeploymentGet deploymentID])
         \<or> log = concat (replicate n [Since, DeploymentGet deploymentID]) @ [Since])
     \<and> (\<forall>d. Sleep d \<notin> set log)"
proof
  assume "waitDeployment w deploymentID = Some (log, r)"
  from waitDeployment_log [OF this] obtain n where
    n: "log = concat (replicate n [Since, DeploymentGet deploymentID])
         \<or> log = concat (replicate n [Since, DeploymentGet deploymentID]) @ [Since]" ..
  then have "\<forall>d. Sleep d \<notin> set log"
    using rounds_no_Sleep [of _ n deploymentID] by auto
  with n show "(\<exists>n. log = concat (replicate n [Since, DeploymentGet deploymentID])
         \<or> log = concat (replicate n [Since, DeploymentGet deploymentID]) @ [Since])
     \<and> (\<forall>d. Sleep d \<notin> set log)" by blast
qed

theorem waitDeployment_no_delay_witness:
  "waitDeployment worldPending 7 =
     Some ([Since, DeploymentGet 7, Since, DeploymentGet 7, Since],
           Some ''waiting for deployment 7 timedout'')
   \<and> Sleep 1000000000 \<notin> set [Since, DeploymentGet 7, Since, DeploymentGet 7, Since]"
proof -
  have r: "waitDeployment worldPending 7 =
     Some ([Since, DeploymentGet 7, Since, DeploymentGet 7, Since],
           Some ''waiting for deployment 7 timedout'')"
    by code_simp
  from waitDeployment_no_delay [of worldPending 7] r
  have "Sleep 1000000000 \<notin> set [Since, DeploymentGet 7, Since, DeploymentGet 7, Since]"
    by blast
  with r show ?thesis by simp
qed

text \<open>
  A run with two fetches: the workload is pending at the first and done at the second,
  and the only call between the two fetches is the reading of the clock.
\<close>

theorem waitDeployment_delay_counterexample:
  "waitDeployment worldDone 7 = Some ([Since, DeploymentGet 7, Since, DeploymentGet 7], None)"
  by code_simp

section \<open>Properties of the diff and of the update path\<close>

text \<open>
  What each has-changed function returns when the first record with the identity key
  of the declared resource is \<open>p\<close>; and the versions that the loops of the update give to
  the workloads, next to the versions they record.
\<close>

lemma vmHasChanged_same: "vmHasChanged vm (vm # oldVms) = (True, Some vm)"
  by (simp add: DeepEqual_def)

lemma diskHasChanged_match:
  "\<forall>q \<in> set before. d_name q \<noteq> d_name disk \<Longrightarrow> d_name p = d_name disk \<Longrightarrow>
     diskHasChanged disk (before @ p # after) =
       (d_description p \<noteq> d_description disk \<or> d_size p \<noteq> d_size disk, Some p)"
  by (induction before) auto

lemma zdbHasChanged_match:
  "\<forall>q \<in> set before. z_name q \<noteq> z_name zdb \<Longrightarrow> z_name p = z_name zdb \<Longrightarrow>
     zdbHasChanged zdb (before @ p # after) =
       (z_password p \<noteq> z_password zdb \<or> z_size p \<noteq> z_size zdb
          \<or> z_description p \<noteq> z_description zdb \<or> z_mode p \<noteq> z_mode zdb, Some p)"
  by (induction before) auto

lemma vmHasChanged_match:
  "\<forall>q \<in> set before. \<not> (vm_name q = vm_name vm \<and> vm_flist q = vm_flist vm) \<Longrightarrow>
   vm_name p = vm_name vm \<Longrightarrow> vm_flist p = vm_flist vm \<Longrightarrow>
     vmHasChanged vm (before @ p # after) =
       (vm_cpu p \<noteq> vm_cpu vm \<or> vm_memory p \<noteq> vm_memory vm
          \<or> vm_entrypoint p \<noteq> vm_entrypoint vm
          \<or> vm_mounts p = vm_mounts vm \<or> vm_env_vars p = vm_env_vars vm, Some p)"
  by (induction before) (auto simp: DeepEqual_def)

lemma updateDisks_versions:
  "updateDisks oldDisks disks = (workloads, updatedDisks) \<Longrightarrow>
     map wl_Version workloads = map d_version updatedDisks"
  by (induction disks arbitrary: workloads updatedDisks)
     (auto simp: Let_def diskWorkload_def split: prod.splits)

lemma updateVms_versions:
  "updateVms parseIP oldVms vms = (workloads, updatedVms) \<Longrightarrow>
     map wl_Version workloads = map vm_version updatedVms"
  by (induction vms arbitrary: workloads updatedVms)
     (auto simp: Let_def machineWorkload_def split: prod.splits)

lemma updateZdbs_versions:
  "updateZdbs encrypt oldZdbs zdbs = Inr (workloads, updatedZdbs) \<Longrightarrow>
     \<forall>w \<in> set workloads. wl_Version w = 0"
  by (induction zdbs arbitrary: workloads updatedZdbs)
     (auto simp: Let_def zdbWorkload_def Version_def split: prod.splits sum.splits)

lemma updateVms_interfaces:
  "updateVms parseIP oldVms vms = (workloads, updatedVms) \<Longrightarrow> w \<in> set workloads \<Longrightarrow>
     \<exists>m. wl_Data w = ZMachineData m
        \<and> Interfaces m = [\<lparr>if_Network = ''network'', if_IP = parseIP ''10.1.1.3''\<rparr>]"
  by (induction vms arbitrary: workloads updatedVms)
     (auto simp: Let_def machineWorkload_def split: prod.splits)


text \<open>
  C2 (the machines). A prior record that is the declared machine itself, every field
  identical, is reported as changed, because the comparison of the mounts and of the
  variables is true when they are equal; and a declaration whose mounts and variables
  both differ from the prior record's, with the other fields equal, is reported as
  unchanged.
\<close>

theorem vmHasChanged_identical_record:
  "vmHasChanged web1 [web1] = (True, Some web1)
   \<and> vmHasChanged (web1\<lparr>vm_mounts := [], vm_env_vars := []\<rparr>) [web1] = (False, Some web1)"
  by (simp add: DeepEqual_def web1_def)

text \<open>
  C3 (the storage nodes). The declared size of \<open>db1\<close> differs from the recorded one, whose
  version is 0: the version recorded is 1, and the version of the workload is 0.
\<close>

theorem updateZdbs_workload_version:
  "(case updateZdbs exampleEncrypt [db1\<lparr>z_size := 5\<rparr>] [db1] of
      Inl e \<Rightarrow> ([], [])
    | Inr (workloads, updatedZdbs) \<Rightarrow> (map wl_Version workloads, map z_version updatedZdbs))
   = ([0], [1])"
  by code_simp

text \<open>
  C6. Create gives \<open>web1\<close> the address \<open>10.1.1.2\<close> on the network \<open>net1\<close>. The update that
  only changes the CPU count to 2 builds the workload with version 1 and with the
  interface \<open>network\<close> / \<open>10.1.1.3\<close>.
\<close>

theorem updateVms_interface:
  "createVms parseIP ''net1'' (ipNet 10 1 1 0 24) [] [web1] =
     Inr ([machineWorkload 0 (web1\<lparr>vm_ip := ''10.1.1.2''\<rparr>)
             \<lparr>if_Network = ''net1'', if_IP = parseIP ''10.1.1.2''\<rparr>],
          [web1\<lparr>vm_ip := ''10.1.1.2''\<rparr>], [''10.1.1.2''])
   \<and> updateVms parseIP [web1\<lparr>vm_ip := ''10.1.1.2''\<rparr>] [web1\<lparr>vm_ip := ''10.1.1.2'', vm_cpu := 2\<rparr>] =
     ([machineWorkload 1 (web1\<lparr>vm_ip := ''10.1.1.2'', vm_cpu := 2, vm_version := 1\<rparr>)
         \<lparr>if_Network = ''network'', if_IP = parseIP ''10.1.1.3''\<rparr>],
      [web1\<lparr>vm_ip := ''10.1.1.2'', vm_cpu := 2, vm_version := 1\<rparr>])"
proof -
  have ip: "getFreeIP (ipNet 10 1 1 0 24) [] = Inr ''10.1.1.2''"
    by code_simp
  have c: "createVms parseIP ''net1'' (ipNet 10 1 1 0 24) [] [web1] =
     Inr ([machineWorkload 0 (web1\<lparr>vm_ip := ''10.1.1.2''\<rparr>)
             \<lparr>if_Network = ''net1'', if_IP = parseIP ''10.1.1.2''\<rparr>],
          [web1\<lparr>vm_ip := ''10.1.1.2''\<rparr>], [''10.1.1.2''])"
    by (simp add: ip Version_def web1_def Let_def)
  have u: "updateVms parseIP [web1\<lparr>vm_ip := ''10.1.1.2''\<rparr>] [web1\<lparr>vm_ip := ''10.1.1.2'', vm_cpu := 2\<rparr>] =
     ([machineWorkload 1 (web1\<lparr>vm_ip := ''10.1.1.2'', vm_cpu := 2, vm_version := 1\<rparr>)
         \<lparr>if_Network = ''network'', if_IP = parseIP ''10.1.1.3''\<rparr>],
      [web1\<lparr>vm_ip := ''10.1.1.2'', vm_cpu := 2, vm_version := 1\<rparr>])"
    by (simp add: web1_def Let_def DeepEqual_def)
  from c u show ?thesis by (rule conjI)
qed

section \<open>Properties of topology generation: peers and access configuration\<close>


lemma Sign_workloads: "Sign c twin sk dl = Inr dl' \<Longrightarrow> dl_Workloads dl' = dl_Workloads dl"
  by (auto simp: Sign_def split: sum.splits)

lemma nodeDeployment_Inr:
  assumes "nodeDeployment c nc userInfo node = Inr (cfg, dep)"
  shows "cfg = (if node = PublicNodeID nc then Some (accessConfig c nc node) else None)
    \<and> IPs nc node \<noteq> None \<and> WGPort nc node \<noteq> None
    \<and> (\<exists>ps. neighbours c nc node (NodeIDs nc) = Inr ps
          \<and> (if node = PublicNodeID nc
              then \<exists>x. externalPeer c nc = Inr x \<and> peersOf dep = ps @ [x]
              else peersOf dep = ps))"
  using assms
  by (auto simp: nodeDeployment_def andThen_def Let_def peersOf_def newDeployment_def
      dest!: Sign_workloads split: sum.splits if_splits option.splits)


lemma generateLoop_Inr:
  "generateLoop c nc userInfo ns info0 = Inr info \<Longrightarrow>
     (\<exists>ds. Deployments info = Deployments info0 @ ds
        \<and> list_all2 (\<lambda>node d. \<exists>cfg. nodeDeployment c nc userInfo node = Inr (cfg, d)) ns ds)
     \<and> WGAccessConfiguration info =
         (if PublicNodeID nc \<in> set ns then accessConfig c nc (PublicNodeID nc)
          else WGAccessConfiguration info0)"
proof (induction ns arbitrary: info0)
  case Nil
  then show ?case by simp
next
  case (Cons node ns)
  from Cons.prems obtain cfg dep where
    nd: "nodeDeployment c nc userInfo node = Inr (cfg, dep)"
    by (cases "nodeDeployment c nc userInfo node") auto
  let ?info1 = "\<lparr>WGAccessConfiguration =
               (case cfg of None \<Rightarrow> WGAccessConfiguration info0 | Some cfg \<Rightarrow> cfg),
             Deployments = Deployments info0 @ [dep]\<rparr>"
  from Cons.prems nd have r: "generateLoop c nc userInfo ns ?info1 = Inr info" by simp
  from Cons.IH [OF r] obtain ds where
    ds: "Deployments info = (Deployments info0 @ [dep]) @ ds"
      "list_all2 (\<lambda>node d. \<exists>cfg. nodeDeployment c nc userInfo node = Inr (cfg, d)) ns ds"
    and acc1: "WGAccessConfiguration info =
         (if PublicNodeID nc \<in> set ns then accessConfig c nc (PublicNodeID nc)
          else WGAccessConfiguration ?info1)"
    by auto
  from nodeDeployment_Inr [OF nd]
  have cfg: "cfg = (if node = PublicNodeID nc then Some (accessConfig c nc node) else None)"
    by simp
  from acc1 cfg have acc: "WGAccessConfiguration info =
         (if PublicNodeID nc \<in> set (node # ns) then accessConfig c nc (PublicNodeID nc)
          else WGAccessConfiguration info0)"
    by auto
  from ds nd have "Deployments info = Deployments info0 @ (dep # ds)
      \<and> list_all2 (\<lambda>node d. \<exists>cfg. nodeDeployment c nc userInfo node = Inr (cfg, d))
           (node # ns) (dep # ds)"
    by auto
  then have "\<exists>ds. Deployments info = Deployments info0 @ ds
      \<and> list_all2 (\<lambda>node d. \<exists>cfg. nodeDeployment c nc userInfo node = Inr (cfg, d))
           (node # ns) ds" ..
  with acc show ?case by simp
qed

lemma generateDeployments_Inr:
  assumes "generateDeployments c nc userInfo = Inr info"
  shows "list_all2 (\<lambda>node d. \<exists>cfg. nodeDeployment c nc userInfo node = Inr (cfg, d))
           (NodeIDs nc) (Deployments info)"
    and "WGAccessConfiguration info =
         (if PublicNodeID nc \<in> set (NodeIDs nc) then accessConfig c nc (PublicNodeID nc) else [])"
  using generateLoop_Inr [OF assms [unfolded generateDeployments_def]] by simp_all







lemma example_generates:
  "\<not> isl (generateDeployments exampleCollaborators exampleConfig exampleUser)"
  by code_simp



text \<open>
  C7 (as amended). When the public node is among the nodes and generation returns, the
  result holds one access configuration, the text that \<open>generateWGConfig\<close> gives for the
  public node: it contains the public key of the key of the public node, and its allowed
  IPs are the constant ranges \<open>10.1.0.0/16\<close> and \<open>100.64.0.0/16\<close>. The external access subnet
  is not written into it: with any other external subnet the text is the same.
\<close>

theorem generateDeployments_access_config:
  assumes "generateDeployments c nc userInfo = Inr info"
    and "PublicNodeID nc \<in> set (NodeIDs nc)"
  shows "WGAccessConfiguration info = accessConfig c nc (PublicNodeID nc)
    \<and> sublist (''PublicKey = '' @ KeyString c (PublicKey c (keyOf nc (PublicNodeID nc))))
         (WGAccessConfiguration info)
    \<and> sublist ''AllowedIPs = 10.1.0.0/16, 100.64.0.0/16'' (WGAccessConfiguration info)
    \<and> (\<forall>x info'. generateDeployments c (nc\<lparr>ExternalNodeIP := x\<rparr>) userInfo = Inr info' \<longrightarrow>
          WGAccessConfiguration info' = WGAccessConfiguration info)"
proof -
  from generateDeployments_Inr(2) [OF assms(1)] assms(2)
  have a: "WGAccessConfiguration info = accessConfig c nc (PublicNodeID nc)" by simp
  have k: "sublist (''PublicKey = '' @ KeyString c (PublicKey c (keyOf nc (PublicNodeID nc))))
         (accessConfig c nc (PublicNodeID nc))"
    unfolding accessConfig_def generateWGConfig_def sublist_def
    by (rule exI [of _ "''\<newline>[Interface]\<newline>Address = 100.64.1.2\<newline>PrivateKey = ''
            @ KeyString c (ExternalNodeKey nc) @ ''\<newline>[Peer]\<newline>''"], rule exI) simp
  have r: "sublist ''AllowedIPs = 10.1.0.0/16, 100.64.0.0/16'' (accessConfig c nc (PublicNodeID nc))"
    unfolding accessConfig_def generateWGConfig_def sublist_def
    by (rule exI [of _ "''\<newline>[Interface]\<newline>Address = 100.64.1.2\<newline>PrivateKey = ''
            @ KeyString c (ExternalNodeKey nc) @ ''\<newline>[Peer]\<newline>PublicKey = ''
            @ KeyString c (PublicKey c (keyOf nc (PublicNodeID nc))) @ ''\<newline>''"], rule exI) simp
  have i: "\<forall>x info'. generateDeployments c (nc\<lparr>ExternalNodeIP := x\<rparr>) userInfo = Inr info' \<longrightarrow>
          WGAccessConfiguration info' = WGAccessConfiguration info"
  proof (intro allI impI)
    fix x info'
    assume "generateDeployments c (nc\<lparr>ExternalNodeIP := x\<rparr>) userInfo = Inr info'"
    from generateDeployments_Inr(2) [OF this] assms(2) a
    show "WGAccessConfiguration info' = WGAccessConfiguration info"
      by (simp add: accessConfig_def keyOf_def portOf_def)
  qed
  from a k r i show ?thesis by simp
qed


lemma example_accessConfig:
  "accessConfig exampleCollaborators exampleConfig (PublicNodeID exampleConfig) = exampleAccess"
  by code_simp

theorem generateDeployments_access_config_witness:
  "PublicNodeID exampleConfig \<in> set (NodeIDs exampleConfig)
   \<and> map_sum id WGAccessConfiguration
        (generateDeployments exampleCollaborators exampleConfig exampleUser) = Inr exampleAccess
   \<and> sublist ''PublicKey = 0a01'' exampleAccess
   \<and> sublist ''AllowedIPs = 10.1.0.0/16, 100.64.0.0/16'' exampleAccess"
proof -
  from example_generates obtain info where
    g: "generateDeployments exampleCollaborators exampleConfig exampleUser = Inr info"
    by (cases "generateDeployments exampleCollaborators exampleConfig exampleUser") auto
  have h: "PublicNodeID exampleConfig \<in> set (NodeIDs exampleConfig)"
    by (simp add: exampleConfig_def)
  have k: "''PublicKey = '' @ KeyString exampleCollaborators
        (PublicKey exampleCollaborators (keyOf exampleConfig (PublicNodeID exampleConfig)))
      = ''PublicKey = 0a01''"
    by code_simp
  note t = generateDeployments_access_config [OF g h]
  from t example_accessConfig have a: "WGAccessConfiguration info = exampleAccess"
    by simp
  from t have "sublist (''PublicKey = '' @ KeyString exampleCollaborators
        (PublicKey exampleCollaborators (keyOf exampleConfig (PublicNodeID exampleConfig))))
      (WGAccessConfiguration info)"
    by blast
  then have s1: "sublist ''PublicKey = 0a01'' exampleAccess"
    unfolding k a .
  from t have "sublist ''AllowedIPs = 10.1.0.0/16, 100.64.0.0/16'' (WGAccessConfiguration info)"
    by blast
  then have s2: "sublist ''AllowedIPs = 10.1.0.0/16, 100.64.0.0/16'' exampleAccess"
    unfolding a .
  from g a have "map_sum id WGAccessConfiguration
        (generateDeployments exampleCollaborators exampleConfig exampleUser) = Inr exampleAccess"
    by simp
  with h s1 s2 show ?thesis by (intro conjI)
qed

text \<open>
  For the example, whose external access subnet is \<open>10.1.2.0/24\<close>, the access
  configuration does not contain this subnet; and it is the same text when the external
  access subnet is \<open>192.168.7.0/24\<close>, which none of its allowed IPs covers.
\<close>

theorem generateDeployments_access_config_counterexample:
  "map_sum id WGAccessConfiguration
     (generateDeployments exampleCollaborators exampleConfig exampleUser) = Inr exampleAccess
   \<and> map_sum id WGAccessConfiguration
        (generateDeployments exampleCollaborators
           (exampleConfig\<lparr>ExternalNodeIP := ipNet 192 168 7 0 24\<rparr>) exampleUser) = Inr exampleAccess
   \<and> ExternalNodeIP exampleConfig = ipNet 10 1 2 0 24
   \<and> \<not> sublist ''10.1.2.0/24'' exampleAccess
   \<and> \<not> sublist ''192.168.7.0/24'' exampleAccess"
  by code_simp

text \<open>
  C10 (as amended). The access configuration, when the public node is among the nodes
  and generation returns, is the text
  below: the interface address \<open>100.64.1.2\<close>, the endpoint address \<open>185.206.122.31\<close> with
  the port of the public node, the allowed IPs \<open>10.1.0.0/16, 100.64.0.0/16\<close> and the
  keepalive 25 are constants, and only the two keys and the port come from the
  configuration. (The text is empty when the public node is not among the nodes.) So it
  is the same for any external access subnet and any subnets of the nodes, which is all
  that is left of a declared \<open>ip_range\<close> in the configuration.
\<close>

theorem accessConfig_constants:
  assumes "generateDeployments c nc userInfo = Inr info"
  shows "WGAccessConfiguration info =
     (if PublicNodeID nc \<in> set (NodeIDs nc) then
        ''\<newline>[Interface]\<newline>Address = 100.64.1.2\<newline>PrivateKey = ''
        @ KeyString c (ExternalNodeKey nc)
        @ ''\<newline>[Peer]\<newline>PublicKey = ''
        @ KeyString c (PublicKey c (keyOf nc (PublicNodeID nc)))
        @ ''\<newline>AllowedIPs = 10.1.0.0/16, 100.64.0.0/16\<newline>PersistentKeepalive = 25''
        @ ''\<newline>Endpoint = 185.206.122.31:'' @ fmt_d (sint (portOf nc (PublicNodeID nc)))
        @ [CHR 0x0A, CHR 0x09]
      else [])
   \<and> (\<forall>x ips info'.
         generateDeployments c (nc\<lparr>ExternalNodeIP := x, IPs := ips\<rparr>) userInfo = Inr info' \<longrightarrow>
           WGAccessConfiguration info' = WGAccessConfiguration info)"
proof
  from generateDeployments_Inr(2) [OF assms]
  show "WGAccessConfiguration info =
     (if PublicNodeID nc \<in> set (NodeIDs nc) then
        ''\<newline>[Interface]\<newline>Address = 100.64.1.2\<newline>PrivateKey = ''
        @ KeyString c (ExternalNodeKey nc)
        @ ''\<newline>[Peer]\<newline>PublicKey = ''
        @ KeyString c (PublicKey c (keyOf nc (PublicNodeID nc)))
        @ ''\<newline>AllowedIPs = 10.1.0.0/16, 100.64.0.0/16\<newline>PersistentKeepalive = 25''
        @ ''\<newline>Endpoint = 185.206.122.31:'' @ fmt_d (sint (portOf nc (PublicNodeID nc)))
        @ [CHR 0x0A, CHR 0x09]
      else [])"
    by (simp add: accessConfig_def generateWGConfig_def)
next
  show "\<forall>x ips info'.
         generateDeployments c (nc\<lparr>ExternalNodeIP := x, IPs := ips\<rparr>) userInfo = Inr info' \<longrightarrow>
           WGAccessConfiguration info' = WGAccessConfiguration info"
  proof (intro allI impI)
    fix x ips info'
    assume "generateDeployments c (nc\<lparr>ExternalNodeIP := x, IPs := ips\<rparr>) userInfo = Inr info'"
    from generateDeployments_Inr(2) [OF this] generateDeployments_Inr(2) [OF assms]
    show "WGAccessConfiguration info' = WGAccessConfiguration info"
      by (simp add: accessConfig_def keyOf_def portOf_def)
  qed
qed

theorem accessConfig_constants_witness:
  "map_sum id WGAccessConfiguration
     (generateDeployments exampleCollaborators exampleConfig exampleUser) =
   Inr (''\<newline>[Interface]\<newline>Address = 100.64.1.2\<newline>PrivateKey = 095a''
        @ ''\<newline>[Peer]\<newline>PublicKey = 0a01''
        @ ''\<newline>AllowedIPs = 10.1.0.0/16, 100.64.0.0/16\<newline>PersistentKeepalive = 25''
        @ ''\<newline>Endpoint = 185.206.122.31:3001'' @ [CHR 0x0A, CHR 0x09])"
proof -
  from example_generates obtain info where
    g: "generateDeployments exampleCollaborators exampleConfig exampleUser = Inr info"
    by (cases "generateDeployments exampleCollaborators exampleConfig exampleUser") auto
  have h: "PublicNodeID exampleConfig \<in> set (NodeIDs exampleConfig)"
    by (simp add: exampleConfig_def)
  have k: "KeyString exampleCollaborators (ExternalNodeKey exampleConfig) = ''095a''"
    "KeyString exampleCollaborators
        (PublicKey exampleCollaborators (keyOf exampleConfig (PublicNodeID exampleConfig))) = ''0a01''"
    "fmt_d (sint (portOf exampleConfig (PublicNodeID exampleConfig))) = ''3001''"
    by code_simp+
  from accessConfig_constants [OF g, THEN conjunct1] h
  have "WGAccessConfiguration info =
        ''\<newline>[Interface]\<newline>Address = 100.64.1.2\<newline>PrivateKey = 095a''
        @ ''\<newline>[Peer]\<newline>PublicKey = 0a01''
        @ ''\<newline>AllowedIPs = 10.1.0.0/16, 100.64.0.0/16\<newline>PersistentKeepalive = 25''
        @ ''\<newline>Endpoint = 185.206.122.31:3001'' @ [CHR 0x0A, CHR 0x09]"
    by (simp add: k)
  with g show ?thesis by simp
qed

text \<open>
  With the node list \<open>[5]\<close>, which does not have the public node 1, generation returns
  and the access configuration is the empty text, with none of the constants.
\<close>

theorem accessConfig_constants_counterexample:
  "map_sum id WGAccessConfiguration
     (generateDeployments exampleCollaborators (exampleConfig\<lparr>NodeIDs := [5]\<rparr>) exampleUser)
   = Inr []"
  by code_simp

end
